theory Spec2Isabelle
  imports Main "HOL-Library.Word"
begin

section \<open>Strings\<close>

text \<open>
  A JavaScript string is modelled as a \<^typ>\<open>string\<close>: one \<^typ>\<open>char\<close> per code unit,
  restricted to the code units below 256. \<open>truthy\<close> is JavaScript's truthiness of a
  string: every string but the empty one.
\<close>

definition truthy :: "string \<Rightarrow> bool" where
  "truthy s = (s \<noteq> [])"

text \<open>
  \<open>String.prototype.trim\<close> strips white space and line terminators from both ends; below
  256 these are tab, line feed, vertical tab, form feed, carriage return, space and the
  no-break space.
\<close>

definition whitespace :: "char list" where
  "whitespace = [CHR 0x09, CHR 0x0A, CHR 0x0B, CHR 0x0C, CHR 0x0D, CHR 0x20, CHR 0xA0]"

definition is_space :: "char \<Rightarrow> bool" where
  "is_space c = (c \<in> set whitespace)"

definition trim :: "string \<Rightarrow> string" where
  "trim s = rev (dropWhile is_space (rev (dropWhile is_space s)))"

text \<open>
  \<open>String.prototype.toLowerCase\<close>: the letters A to Z and the upper-case letters of the
  Latin-1 block are mapped to their lower-case forms, every other code unit stays.
\<close>

definition upper_case :: "char list" where
  "upper_case = ''ABCDEFGHIJKLMNOPQRSTUVWXYZ'' @
     [CHR 0xC0, CHR 0xC1, CHR 0xC2, CHR 0xC3, CHR 0xC4, CHR 0xC5, CHR 0xC6, CHR 0xC7,
      CHR 0xC8, CHR 0xC9, CHR 0xCA, CHR 0xCB, CHR 0xCC, CHR 0xCD, CHR 0xCE, CHR 0xCF,
      CHR 0xD0, CHR 0xD1, CHR 0xD2, CHR 0xD3, CHR 0xD4, CHR 0xD5, CHR 0xD6, CHR 0xD8,
      CHR 0xD9, CHR 0xDA, CHR 0xDB, CHR 0xDC, CHR 0xDD, CHR 0xDE]"

definition lower_case :: "char list" where
  "lower_case = ''abcdefghijklmnopqrstuvwxyz'' @
     [CHR 0xE0, CHR 0xE1, CHR 0xE2, CHR 0xE3, CHR 0xE4, CHR 0xE5, CHR 0xE6, CHR 0xE7,
      CHR 0xE8, CHR 0xE9, CHR 0xEA, CHR 0xEB, CHR 0xEC, CHR 0xED, CHR 0xEE, CHR 0xEF,
      CHR 0xF0, CHR 0xF1, CHR 0xF2, CHR 0xF3, CHR 0xF4, CHR 0xF5, CHR 0xF6, CHR 0xF8,
      CHR 0xF9, CHR 0xFA, CHR 0xFB, CHR 0xFC, CHR 0xFD, CHR 0xFE]"

definition toLowerCase_char :: "char \<Rightarrow> char" where
  "toLowerCase_char c =
     (case map_of (zip upper_case lower_case) c of None \<Rightarrow> c | Some l \<Rightarrow> l)"

definition toLowerCase :: "string \<Rightarrow> string" where
  "toLowerCase s = map toLowerCase_char s"

text \<open>\<open>s.includes(sub)\<close>: \<open>sub\<close> occurs in \<open>s\<close> at some position.\<close>

definition starts_with :: "string \<Rightarrow> string \<Rightarrow> bool" where
  "starts_with s sub = (take (length sub) s = sub)"

primrec includes_str :: "string \<Rightarrow> string \<Rightarrow> bool" where
  "includes_str [] sub = (sub = [])"
| "includes_str (c # cs) sub = (starts_with (c # cs) sub \<or> includes_str cs sub)"

text \<open>The decimal rendering of a natural number, as a template literal prints it.\<close>

fun digits :: "nat \<Rightarrow> string" where
  "digits n =
     (if n < 10 then [''0123456789'' ! n]
      else digits (n div 10) @ [''0123456789'' ! (n mod 10)])"

declare digits.simps [simp del]

definition newline :: char where
  "newline = CHR 0x0A"

definition quote :: char where
  "quote = CHR 0x27"

text \<open>\<open>s.split('\n')\<close> and \<open>lines.join('\n')\<close>.\<close>

fun split_nl :: "string \<Rightarrow> string list" where
  "split_nl [] = [[]]"
| "split_nl (c # cs) =
     (if c = newline then [] # split_nl cs
      else (case split_nl cs of [] \<Rightarrow> [[c]] | l # ls \<Rightarrow> (c # l) # ls))"

fun join_nl :: "string list \<Rightarrow> string" where
  "join_nl [] = []"
| "join_nl [l] = l"
| "join_nl (l # m # ls) = l @ newline # join_nl (m # ls)"

text \<open>\<open>xs.slice(-n)\<close>: the last \<open>n\<close> elements, all of them when there are fewer.\<close>

definition slice_last :: "nat \<Rightarrow> 'a list \<Rightarrow> 'a list" where
  "slice_last n xs = drop (length xs - n) xs"

section \<open>Workspace tree model (CodeEditor)\<close>

datatype node_type = File | Directory

text \<open>The interface \<open>FileNode\<close>; an optional field is an \<open>option\<close>.\<close>

datatype FileNode = FileNode
  (name: string)
  (path: string)
  (type: node_type)
  (children: "FileNode list option")
  (content: "string option")
  (language: "string option")

text \<open>The four \<open>useState\<close> cells of the component \<open>CodeEditor\<close>.\<close>

record CodeEditor =
  selectedFile :: "string option"
  fileContents :: "string \<rightharpoonup> string"
  expandedFolders :: "string set"
  openTabs :: "string list"

definition initial_CodeEditor :: CodeEditor where
  "initial_CodeEditor =
     \<lparr>selectedFile = None, fileContents = Map.empty,
      expandedFolders = {''src''}, openTabs = []\<rparr>"





definition toggleFolder :: "string \<Rightarrow> CodeEditor \<Rightarrow> CodeEditor" where
  "toggleFolder p st =
     st\<lparr>expandedFolders :=
          (if p \<in> expandedFolders st then expandedFolders st - {p}
           else insert p (expandedFolders st))\<rparr>"

text \<open>
  \<open>fileContents\<close> is a plain object: reading a key it does not own gives the member of
  \<open>Object.prototype\<close> of that name, which is truthy, and \<open>undefined\<close> for any other key.
  \<open>has_truthy\<close> is the truthiness of \<open>fileContents[key]\<close>.
\<close>

definition object_prototype_keys :: "string list" where
  "object_prototype_keys =
     [''constructor'', ''hasOwnProperty'', ''isPrototypeOf'', ''propertyIsEnumerable'',
      ''toLocaleString'', ''toString'', ''valueOf'', ''__proto__'', ''__defineGetter__'',
      ''__defineSetter__'', ''__lookupGetter__'', ''__lookupSetter__'']"

definition has_truthy :: "(string \<rightharpoonup> string) \<Rightarrow> string \<Rightarrow> bool" where
  "has_truthy obj key =
     (case obj key of None \<Rightarrow> key \<in> set object_prototype_keys | Some v \<Rightarrow> truthy v)"

definition openFile :: "FileNode \<Rightarrow> CodeEditor \<Rightarrow> CodeEditor" where
  "openFile file st =
     (if type file = Directory then toggleFolder (path file) st
      else st\<lparr>openTabs :=
                (if path file \<in> set (openTabs st) then openTabs st
                 else openTabs st @ [path file]),
              selectedFile := Some (path file),
              fileContents :=
                (case content file of
                   None \<Rightarrow> fileContents st
                 | Some c \<Rightarrow>
                     if truthy c \<and> \<not> has_truthy (fileContents st) (path file)
                     then (fileContents st)(path file \<mapsto> c)
                     else fileContents st)\<rparr>)"

text \<open>
  \<open>closeTab\<close>: the tab is filtered out; when it was the selected file, the selection
  moves to \<open>remainingTabs[remainingTabs.length - 1]\<close>, or to \<open>null\<close>.
\<close>

definition closeTab :: "string \<Rightarrow> CodeEditor \<Rightarrow> CodeEditor" where
  "closeTab p st =
     st\<lparr>openTabs := filter (\<lambda>tab. tab \<noteq> p) (openTabs st),
        selectedFile :=
          (if selectedFile st = Some p
           then (let remainingTabs = filter (\<lambda>tab. tab \<noteq> p) (openTabs st)
                 in if length remainingTabs > 0 then Some (last remainingTabs) else None)
           else selectedFile st)\<rparr>"

text \<open>
  The specification's wording of \<open>closeTab\<close>, for comparison: the tab immediately
  preceding the closed one in open order.
\<close>

fun spec_preceding_tab :: "string list \<Rightarrow> string \<Rightarrow> string option" where
  "spec_preceding_tab [] p = None"
| "spec_preceding_tab [x] p = None"
| "spec_preceding_tab (x # y # ys) p =
     (if x = p then None else if y = p then Some x else spec_preceding_tab (y # ys) p)"

definition tabs_abc :: CodeEditor where
  "tabs_abc = openFile (FileNode ''b.ts'' ''src/b.ts'' File None None None)
     (openFile (FileNode ''c.ts'' ''src/c.ts'' File None None None)
       (openFile (FileNode ''b.ts'' ''src/b.ts'' File None None None)
         (openFile (FileNode ''a.ts'' ''src/a.ts'' File None None None) initial_CodeEditor)))"






section \<open>Schema inspector (DatabaseManager)\<close>

text \<open>
  Rows come back from the engine as objects with dynamically keyed fields. A field value
  is a \<open>jsval\<close>; a row lists its fields in column order, and reading a field that is
  absent gives \<open>undefined\<close>. Numbers are the integers from \<open>-2^53\<close> to \<open>2^53 - 1\<close>, held as
  the signed value of a 54-bit word: each of them is a number of JavaScript, and a
  template literal prints each in plain decimal.
\<close>

datatype jsval = JUndefined | JNull | JBool bool | JNum "54 word" | JStr string

type_synonym row = "(string \<times> jsval) list"

text \<open>
  \<open>row.key\<close>, for the keys the component reads: \<open>name\<close>, \<open>type\<close>, \<open>notnull\<close>, \<open>pk\<close> and
  \<open>count\<close>. None of them is a member of \<open>Object.prototype\<close>, so a row without the field
  gives \<open>undefined\<close>.
\<close>

definition get_field :: "row \<Rightarrow> string \<Rightarrow> jsval" where
  "get_field r k = (case map_of r k of None \<Rightarrow> JUndefined | Some v \<Rightarrow> v)"

fun js_truthy :: "jsval \<Rightarrow> bool" where
  "js_truthy JUndefined = False"
| "js_truthy JNull = False"
| "js_truthy (JBool b) = b"
| "js_truthy (JNum n) = (n \<noteq> 0)"
| "js_truthy (JStr s) = truthy s"

text \<open>The text a template literal puts in for a value.\<close>

fun to_text :: "jsval \<Rightarrow> string" where
  "to_text JUndefined = ''undefined''"
| "to_text JNull = ''null''"
| "to_text (JBool b) = (if b then ''true'' else ''false'')"
| "to_text (JNum n) =
     (if sint n < 0 then ''-'' @ digits (nat (- sint n)) else digits (nat (sint n)))"
| "to_text (JStr s) = s"

text \<open>
  What a rejected call throws: an \<open>Error\<close> object with its message, or any other value.
  \<open>catch_message\<close> is \<open>err instanceof Error ? err.message : fallback\<close>.
\<close>

datatype thrown = ErrorObject string | OtherValue

fun catch_message :: "thrown \<Rightarrow> string \<Rightarrow> string" where
  "catch_message (ErrorObject m) fallback = m"
| "catch_message OtherValue fallback = fallback"

record DatabaseColumn =
  col_name :: jsval
  col_type :: jsval
  nullable :: bool
  primaryKey :: bool

record DatabaseTable =
  table_name :: jsval
  columns :: "DatabaseColumn list"
  rowCount :: jsval

text \<open>
  The relational engine is a parameter: from its state and a statement it gives the rows
  or what it throws, and its next state. \<open>blink.db.sql\<close> runs one statement on it; the
  statements sent are recorded in order in \<open>issued\<close>, and what the engine threw at the
  rejected ones in \<open>rejected\<close>.
\<close>

type_synonym 'db engine = "'db \<Rightarrow> string \<Rightarrow> (thrown + row list) \<times> 'db"

record 'db backend =
  engine_state :: 'db
  issued :: "string list"
  rejected :: "thrown list"

definition sql :: "'db engine \<Rightarrow> string \<Rightarrow> 'db backend \<Rightarrow> (thrown + row list) \<times> 'db backend" where
  "sql eng stmt b =
     (case eng (engine_state b) stmt of
        (r, db') \<Rightarrow>
          (r, \<lparr>engine_state = db', issued = issued b @ [stmt],
               rejected = rejected b @ (case r of Inl e \<Rightarrow> [e] | Inr rows \<Rightarrow> [])\<rparr>))"

text \<open>The seven \<open>useState\<close> cells of the component \<open>DatabaseManager\<close>.\<close>

record DatabaseManager =
  tables :: "DatabaseTable list"
  selectedTable :: "string option"
  tableData :: "row list"
  sqlQuery :: string
  queryResult :: "row list option"
  isLoading :: bool
  error :: "string option"

definition initial_DatabaseManager :: DatabaseManager where
  "initial_DatabaseManager =
     \<lparr>tables = [], selectedTable = None, tableData = [], sqlQuery = [],
      queryResult = None, isLoading = False, error = None\<rparr>"

text \<open>The multi-line template literal that lists the base tables.\<close>

definition list_tables_sql :: string where
  "list_tables_sql =
     newline # ''        SELECT name FROM sqlite_master '' @
     newline # ''        WHERE type='' @ quote # ''table'' @ quote #
               '' AND name NOT LIKE '' @ quote # ''sqlite_%'' @ quote #
     newline # ''        ORDER BY name'' @
     newline # ''      ''"

definition to_column :: "row \<Rightarrow> DatabaseColumn" where
  "to_column col =
     \<lparr>col_name = get_field col ''name'',
      col_type = get_field col ''type'',
      nullable = (\<not> js_truthy (get_field col ''notnull'')),
      primaryKey = (get_field col ''pk'' = JNum 1)\<rparr>"

text \<open>\<open>countResult[0]?.count || 0\<close>.\<close>

definition count_of :: "row list \<Rightarrow> jsval" where
  "count_of countResult =
     (case countResult of
        [] \<Rightarrow> JNum 0
      | r # _ \<Rightarrow> if js_truthy (get_field r ''count'') then get_field r ''count'' else JNum 0)"

text \<open>
  The loop \<open>for (const row of result)\<close> of \<open>loadTables\<close>: two statements per table, one
  after the other; the first rejected one leaves the loop with what was thrown.
\<close>

fun describe_tables ::
  "'db engine \<Rightarrow> row list \<Rightarrow> DatabaseTable list \<Rightarrow> 'db backend \<Rightarrow>
   (thrown + DatabaseTable list) \<times> 'db backend" where
  "describe_tables eng [] tableList b = (Inr tableList, b)"
| "describe_tables eng (r # rest) tableList b =
     (let tableName = get_field r ''name''
      in case sql eng (''PRAGMA table_info('' @ to_text tableName @ '')'') b of
           (Inl e, b1) \<Rightarrow> (Inl e, b1)
         | (Inr schemaResult, b1) \<Rightarrow>
             (case sql eng (''SELECT COUNT(*) as count FROM '' @ to_text tableName) b1 of
                (Inl e, b2) \<Rightarrow> (Inl e, b2)
              | (Inr countResult, b2) \<Rightarrow>
                  describe_tables eng rest
                    (tableList @
                       [\<lparr>table_name = tableName,
                         columns = map to_column schemaResult,
                         rowCount = count_of countResult\<rparr>]) b2))"

text \<open>The \<open>try\<close> block of \<open>loadTables\<close> up to \<open>setTables\<close>, then the whole callback.\<close>

definition loadTables_try ::
  "'db engine \<Rightarrow> 'db backend \<Rightarrow> (thrown + DatabaseTable list) \<times> 'db backend" where
  "loadTables_try eng b =
     (case sql eng list_tables_sql b of
        (Inl e, b1) \<Rightarrow> (Inl e, b1)
      | (Inr result, b1) \<Rightarrow> describe_tables eng result [] b1)"

definition loadTables ::
  "'db engine \<Rightarrow> DatabaseManager \<Rightarrow> 'db backend \<Rightarrow> DatabaseManager \<times> 'db backend" where
  "loadTables eng m b =
     (let m1 = m\<lparr>isLoading := True, error := None\<rparr>
      in case loadTables_try eng b of
           (Inl e, b') \<Rightarrow>
             (m1\<lparr>error := Some (catch_message e ''Failed to load tables''),
                 isLoading := False\<rparr>, b')
         | (Inr tableList, b') \<Rightarrow> (m1\<lparr>tables := tableList, isLoading := False\<rparr>, b'))"

definition loadTableData ::
  "'db engine \<Rightarrow> string \<Rightarrow> DatabaseManager \<Rightarrow> 'db backend \<Rightarrow> DatabaseManager \<times> 'db backend" where
  "loadTableData eng tableName m b =
     (let m1 = m\<lparr>isLoading := True, error := None\<rparr>
      in case sql eng (''SELECT * FROM '' @ tableName @ '' LIMIT 100'') b of
           (Inl e, b') \<Rightarrow>
             (m1\<lparr>error := Some (catch_message e ''Failed to load table data''),
                 isLoading := False\<rparr>, b')
         | (Inr result, b') \<Rightarrow>
             (m1\<lparr>tableData := result, selectedTable := Some tableName,
                 isLoading := False\<rparr>, b'))"

text \<open>The test that decides the refresh after a statement has run.\<close>

definition might_change_schema :: "string \<Rightarrow> bool" where
  "might_change_schema q =
     (includes_str (toLowerCase q) ''create'' \<or>
      includes_str (toLowerCase q) ''drop'' \<or>
      includes_str (toLowerCase q) ''alter'')"

definition executeQuery ::
  "'db engine \<Rightarrow> DatabaseManager \<Rightarrow> 'db backend \<Rightarrow> DatabaseManager \<times> 'db backend" where
  "executeQuery eng m b =
     (if \<not> truthy (trim (sqlQuery m)) then (m, b)
      else
        let m1 = m\<lparr>isLoading := True, error := None\<rparr>
        in case sql eng (sqlQuery m) b of
             (Inl e, b1) \<Rightarrow>
               (m1\<lparr>error := Some (catch_message e ''Query execution failed''),
                   isLoading := False\<rparr>, b1)
           | (Inr result, b1) \<Rightarrow>
               (let m2 = m1\<lparr>queryResult := Some result\<rparr>
                in if might_change_schema (sqlQuery m)
                   then (case loadTables eng m2 b1 of (m3, b2) \<Rightarrow> (m3\<lparr>isLoading := False\<rparr>, b2))
                   else (m2\<lparr>isLoading := False\<rparr>, b1)))"

text \<open>
  Engines to run the model on, none of them with a state: one that answers every
  statement with no rows, one that rejects every statement, one that rejects the
  statement listing the tables, and two that list the table \<open>todos\<close> and reject the
  statement that describes it, or the one that counts its rows.
\<close>

definition empty_engine :: "unit engine" where
  "empty_engine db stmt = (Inr [], db)"

definition failing_engine :: "unit engine" where
  "failing_engine db stmt = (Inl (ErrorObject ''no such table''), db)"

definition fresh_backend :: "unit backend" where
  "fresh_backend = \<lparr>engine_state = (), issued = [], rejected = []\<rparr>"

definition one_table :: "DatabaseTable list" where
  "one_table = [\<lparr>table_name = JStr ''todos'', columns = [], rowCount = JNum 3\<rparr>]"

definition refresh_failing_engine :: "unit engine" where
  "refresh_failing_engine db stmt =
     (if stmt = list_tables_sql then (Inl OtherValue, db) else (Inr [], db))"

definition todos_row :: row where
  "todos_row = [(''name'', JStr ''todos'')]"

definition pragma_failing_engine :: "unit engine" where
  "pragma_failing_engine db stmt =
     (if stmt = list_tables_sql then (Inr [todos_row], db)
      else if stmt = ''PRAGMA table_info(todos)'' then (Inl (ErrorObject ''database is locked''), db)
      else (Inr [], db))"

definition count_failing_engine :: "unit engine" where
  "count_failing_engine db stmt =
     (if stmt = list_tables_sql then (Inr [todos_row], db)
      else if stmt = ''SELECT COUNT(*) as count FROM todos'' then (Inl OtherValue, db)
      else (Inr [], db))"

definition drop_todos :: string where
  "drop_todos = ''DROP TABLE todos''"

definition select_create :: string where
  "select_create = ''SELECT '' @ quote # ''create'' @ quote # '' FROM todos''"

definition with_query :: "string \<Rightarrow> DatabaseManager" where
  "with_query q = initial_DatabaseManager\<lparr>tables := one_table, sqlQuery := q\<rparr>"

section \<open>Artifact extraction\<close>

definition fence :: string where
  "fence = ''```''"

text \<open>
  The first occurrence of the fence in a string: the text before it and the text after it.
\<close>

fun split_fence :: "string \<Rightarrow> (string \<times> string) option" where
  "split_fence [] = None"
| "split_fence (c # cs) =
     (if starts_with (c # cs) fence then Some ([], drop (length fence) (c # cs))
      else (case split_fence cs of None \<Rightarrow> None | Some (a, b) \<Rightarrow> Some (c # a, b)))"

text \<open>\<open>s.replace('```', '')\<close>: the first occurrence of the fence is taken out.\<close>

definition remove_fence :: "string \<Rightarrow> string" where
  "remove_fence s = (case split_fence s of None \<Rightarrow> s | Some (a, b) \<Rightarrow> a @ b)"

text \<open>
  \<open>fullResponse.match(/```[\s\S]*?```/g)\<close>: the matches from left to right, none of them
  overlapping. A match starts at the first fence at or after the end of the match before
  and, the star being lazy, ends with the first fence that starts after that opening
  fence. Where the opening fence has no closing fence, no later position has one either
  and the search ends.
\<close>

function match_fences :: "string \<Rightarrow> string list" where
  "match_fences s =
     (case split_fence s of
        None \<Rightarrow> []
      | Some (before, rest) \<Rightarrow>
          (case split_fence rest of
             None \<Rightarrow> []
           | Some (inner, rest') \<Rightarrow> (fence @ inner @ fence) # match_fences rest'))"
  by pat_completeness auto
termination
proof (relation "measure length")
  show "wf (measure length)" by simp
next
  fix s :: string and x2 before rest x2a inner rest'
  assume a: "split_fence s = Some x2" "(before, rest) = x2"
    "split_fence rest = Some x2a" "(inner, rest') = x2a"
  have shorter: "length b < length t" if "split_fence t = Some (a, b)" for t a b
    using that
  proof (induction t arbitrary: a b)
    case Nil
    then show ?case by simp
  next
    case (Cons c cs)
    then show ?case
      by (auto simp: fence_def starts_with_def split: if_splits option.splits)
  qed
  from a have "length rest < length s" "length rest' < length rest"
    using shorter [of s before rest] shorter [of rest inner rest'] by simp_all
  then show "(rest', s) \<in> measure length" by simp
qed

declare match_fences.simps [simp del]

text \<open>
  The body of \<open>codeBlocks.forEach\<close>: the call \<open>onCodeGenerated(code, fileName)\<close> a block
  makes, if it makes one. \<open>split\<close> never gives an empty array, so \<open>lines[0]\<close> is there.
\<close>

definition block_call :: "string \<Rightarrow> (string \<times> string) list" where
  "block_call block =
     (case split_nl block of
        [] \<Rightarrow> []
      | first_line # others \<Rightarrow>
          (let language = trim (remove_fence first_line);
               code = join_nl (butlast others)
           in if truthy (trim code)
              then [(code, ''generated.'' @ (if truthy language then language else ''txt''))]
              else []))"

text \<open>The calls made for the fenced blocks of a response, in order.\<close>

definition code_calls :: "string \<Rightarrow> (string \<times> string) list" where
  "code_calls fullResponse =
     (if includes_str fullResponse fence
      then concat (map block_call (match_fences fullResponse))
      else [])"












section \<open>Conversation engine (ChatInterface)\<close>

datatype role = UserRole | AssistantRole

record User =
  user_id :: string
  email :: string
  displayName :: "string option"
  avatar :: "string option"
  createdAt :: string

record ChatMessage =
  msg_id :: string
  role :: role
  msg_content :: string
  timestamp :: nat
  projectId :: string
  userId :: string
  msg_isStreaming :: "bool option"

text \<open>The body posted to the inference endpoint, and what comes back.\<close>

record request =
  req_messages :: "(role \<times> string) list"
  req_template :: "string option"

record payload =
  response :: string
  html :: "string option"
  error_field :: "string option"

text \<open>
  \<open>fetch\<close> followed by \<open>response.json()\<close>: either one of the two rejects, or the payload
  is there.
\<close>

datatype fetch_outcome = Rejected | Resolved payload

text \<open>
  The state cells of the component (\<open>messages\<close>, \<open>input\<close>, \<open>isStreaming\<close>, \<open>user\<close>) together
  with what the component has done to the outside: the rows created in the message table,
  the bodies posted to the inference endpoint, the calls of \<open>onCodeGenerated\<close> and the
  number of calls of \<open>console.error\<close>.
\<close>

record world =
  messages :: "ChatMessage list"
  input :: string
  isStreaming :: bool
  user :: "User option"
  persisted :: "ChatMessage list"
  requests :: "request list"
  generated :: "(string \<times> string) list"
  logged :: nat

text \<open>
  What a render binds into \<open>handleSendWithTemplate\<close> (the dependencies of its
  \<open>useCallback\<close>): the handler reads \<open>user\<close>, \<open>isStreaming\<close> and \<open>messages\<close> from this
  closure, while the updaters \<open>setMessages(prev => ...)\<close> work on the current state.
\<close>

record closure =
  c_user :: "User option"
  c_isStreaming :: bool
  c_messages :: "ChatMessage list"
  c_projectId :: string
  c_onCodeGenerated :: bool

definition render :: "string \<Rightarrow> bool \<Rightarrow> world \<Rightarrow> closure" where
  "render pid callback w =
     \<lparr>c_user = user w, c_isStreaming = isStreaming w, c_messages = messages w,
      c_projectId = pid, c_onCodeGenerated = callback\<rparr>"

text \<open>
  The handler is an \<open>async\<close> function: it runs to its next \<open>await\<close> and is resumed when the
  awaited call settles. A \<open>task\<close> is a suspended invocation with the values it holds.
\<close>

datatype task =
    AwaitUserSave closure User ChatMessage "string option"
  | AwaitFetch closure User ChatMessage
  | AwaitAssistantSave closure User ChatMessage payload
  | Settled

datatype event =
    UserSaveDone bool "nat \<times> nat"
  | FetchDone fetch_outcome
  | AssistantSaveDone bool

text \<open>The \<open>catch\<close> block followed by the \<open>finally\<close> block.\<close>

definition catch_finally :: "world \<Rightarrow> world" where
  "catch_finally w =
     w\<lparr>logged := Suc (logged w), messages := butlast (messages w), isStreaming := False\<rparr>"

text \<open>
  From the call to the first \<open>await\<close>. The two numbers are the two readings of
  \<open>Date.now()\<close>, for the id and for the timestamp. A rejected call returns at once.
\<close>

definition new_user_message :: "closure \<Rightarrow> User \<Rightarrow> nat \<times> nat \<Rightarrow> string \<Rightarrow> ChatMessage" where
  "new_user_message cl u now messageContent =
     \<lparr>msg_id = ''msg_'' @ digits (fst now) @ ''_user'', role = UserRole,
      msg_content = trim messageContent, timestamp = snd now,
      projectId = c_projectId cl, userId = user_id u, msg_isStreaming = None\<rparr>"

definition send_start ::
  "closure \<Rightarrow> nat \<times> nat \<Rightarrow> string \<Rightarrow> string option \<Rightarrow> world \<Rightarrow> task \<times> world" where
  "send_start cl now messageContent template w =
     (case c_user cl of
        None \<Rightarrow> (Settled, w)
      | Some u \<Rightarrow>
          if \<not> truthy (trim messageContent) \<or> c_isStreaming cl then (Settled, w)
          else
            let userMessage = new_user_message cl u now messageContent
            in (AwaitUserSave cl u userMessage template,
                w\<lparr>messages := messages w @ [userMessage], input := [],
                  isStreaming := True\<rparr>))"

text \<open>The placeholder of the assistant's answer, with the streaming flag set.\<close>

definition new_assistant_message :: "closure \<Rightarrow> User \<Rightarrow> nat \<times> nat \<Rightarrow> ChatMessage" where
  "new_assistant_message cl u now =
     \<lparr>msg_id = ''msg_'' @ digits (fst now) @ ''_assistant'', role = AssistantRole,
      msg_content = [], timestamp = snd now, projectId = c_projectId cl,
      userId = user_id u, msg_isStreaming = Some True\<rparr>"

text \<open>
  The inference call fails when \<open>fetch\<close> or \<open>response.json()\<close> rejects, or when the payload
  has a truthy \<open>error\<close> field (\<open>if (data.error) throw\<close>).
\<close>

fun inference_failed :: "fetch_outcome \<Rightarrow> bool" where
  "inference_failed Rejected = True"
| "inference_failed (Resolved data) =
     (case error_field data of None \<Rightarrow> False | Some e \<Rightarrow> truthy e)"

definition reduce :: "ChatMessage \<Rightarrow> role \<times> string" where
  "reduce msg = (role msg, msg_content msg)"

definition html_calls :: "closure \<Rightarrow> payload \<Rightarrow> (string \<times> string) list" where
  "html_calls cl data =
     (case html data of
        None \<Rightarrow> []
      | Some h \<Rightarrow> if truthy h \<and> c_onCodeGenerated cl then [(h, ''index.html'')] else [])"

text \<open>The handler from one \<open>await\<close> to the next, or to its end.\<close>

fun resume :: "event \<Rightarrow> task \<Rightarrow> world \<Rightarrow> task \<times> world" where
  "resume (UserSaveDone ok now) (AwaitUserSave cl u userMessage template) w =
     (if \<not> ok then (Settled, catch_finally w)
      else
        let assistantMessage = new_assistant_message cl u now
        in (AwaitFetch cl u assistantMessage,
            w\<lparr>persisted := persisted w @ [userMessage],
              messages := messages w @ [assistantMessage],
              requests := requests w @
                [\<lparr>req_messages = map reduce (slice_last 5 (c_messages cl) @ [userMessage]),
                  req_template = template\<rparr>]\<rparr>))"
| "resume (FetchDone Rejected) (AwaitFetch cl u assistantMessage) w =
     (Settled, catch_finally w)"
| "resume (FetchDone (Resolved data)) (AwaitFetch cl u assistantMessage) w =
     (if inference_failed (Resolved data) then (Settled, catch_finally w)
      else (AwaitAssistantSave cl u assistantMessage data,
            w\<lparr>messages :=
                map (\<lambda>msg. if msg_id msg = msg_id assistantMessage
                           then msg\<lparr>msg_content := response data\<rparr> else msg)
                    (messages w)\<rparr>))"
| "resume (AssistantSaveDone ok) (AwaitAssistantSave cl u assistantMessage data) w =
     (if \<not> ok then (Settled, catch_finally w)
      else (Settled,
            w\<lparr>persisted := persisted w @
                [\<lparr>msg_id = msg_id assistantMessage, role = AssistantRole,
                  msg_content = response data, timestamp = timestamp assistantMessage,
                  projectId = c_projectId cl, userId = user_id u,
                  msg_isStreaming = None\<rparr>],
              messages :=
                map (\<lambda>msg. if msg_id msg = msg_id assistantMessage
                           then msg\<lparr>msg_isStreaming := Some False\<rparr> else msg)
                    (messages w),
              generated := generated w @ html_calls cl data @
                (if c_onCodeGenerated cl then code_calls (response data) else []),
              isStreaming := False\<rparr>))"
| "resume ev t w = (t, w)"

text \<open>
  One invocation run from the call to its end with nothing in between: the outcomes of
  the three awaited calls are given.
\<close>

record outcomes =
  user_save_ok :: bool
  assistant_clock :: "nat \<times> nat"
  fetch_result :: fetch_outcome
  assistant_save_ok :: bool

definition handleSendWithTemplate ::
  "closure \<Rightarrow> nat \<times> nat \<Rightarrow> outcomes \<Rightarrow> string \<Rightarrow> string option \<Rightarrow> world \<Rightarrow> world" where
  "handleSendWithTemplate cl now out messageContent template w =
     (case send_start cl now messageContent template w of
        (t1, w1) \<Rightarrow>
          (case resume (UserSaveDone (user_save_ok out) (assistant_clock out)) t1 w1 of
             (t2, w2) \<Rightarrow>
               (case resume (FetchDone (fetch_result out)) t2 w2 of
                  (t3, w3) \<Rightarrow> snd (resume (AssistantSaveDone (assistant_save_ok out)) t3 w3))))"

text \<open>
  \<open>loadMessages\<close>, started on mount and on a change of the project, when its \<open>list\<close> call
  settles: the rows replace the log, or the failure is logged.
\<close>

definition loadMessages_done :: "ChatMessage list option \<Rightarrow> world \<Rightarrow> world" where
  "loadMessages_done r w =
     (case r of
        None \<Rightarrow> w\<lparr>logged := Suc (logged w)\<rparr>
      | Some chatMessages \<Rightarrow> w\<lparr>messages := chatMessages\<rparr>)"

definition in_flight :: "task \<Rightarrow> bool" where
  "in_flight t = (case t of AwaitFetch cl u m \<Rightarrow> True | _ \<Rightarrow> False)"

text \<open>
  A signed-in user whose messages have not been loaded yet, the same user once the six
  messages of the conversation have been loaded, and the outcomes of the awaited calls
  used below.
\<close>

definition alice :: User where
  "alice = \<lparr>user_id = ''u1'', email = ''alice@example.org'', displayName = None,
            avatar = None, createdAt = ''2024-01-01''\<rparr>"

definition signed_in :: world where
  "signed_in = \<lparr>messages = [], input = [], isStreaming = False, user = Some alice,
                persisted = [], requests = [], generated = [], logged = 0\<rparr>"

definition old_message :: "nat \<Rightarrow> role \<Rightarrow> string \<Rightarrow> ChatMessage" where
  "old_message n r c =
     \<lparr>msg_id = ''m'' @ digits n, role = r, msg_content = c, timestamp = n,
      projectId = ''p'', userId = ''u1'', msg_isStreaming = None\<rparr>"

definition six_rows :: "ChatMessage list" where
  "six_rows =
     [old_message 1 UserRole ''a'', old_message 2 AssistantRole ''b'',
      old_message 3 UserRole ''c'', old_message 4 AssistantRole ''d'',
      old_message 5 UserRole ''e'', old_message 6 AssistantRole ''f'']"

definition six_messages :: world where
  "six_messages = loadMessages_done (Some six_rows) signed_in"

definition ok_payload :: payload where
  "ok_payload = \<lparr>response = ''done'', html = Some ''<p>hi</p>'', error_field = None\<rparr>"

definition error_payload :: payload where
  "error_payload = \<lparr>response = [], html = None, error_field = Some ''overloaded''\<rparr>"

definition all_ok :: outcomes where
  "all_ok = \<lparr>user_save_ok = True, assistant_clock = (2, 2),
             fetch_result = Resolved ok_payload, assistant_save_ok = True\<rparr>"

text \<open>
  The staged prompt: the effect "Auto-send initial prompt" hands the handler of the render
  in which it ran to \<open>setTimeout\<close>, with no cleanup. Here that render is the one of
  \<open>signed_in\<close>. Before the timer fires the user sends a first message through the current
  handler; the timer then calls the handler it was given.
\<close>

definition timer_closure :: closure where
  "timer_closure = render ''p'' True signed_in"

definition first_started :: "task \<times> world" where
  "first_started = send_start (render ''p'' True signed_in) (1, 1) ''first'' None signed_in"

definition first_posted :: "task \<times> world" where
  "first_posted = resume (UserSaveDone True (2, 2)) (fst first_started) (snd first_started)"

definition second_started :: "task \<times> world" where
  "second_started =
     send_start timer_closure (3, 3) ''second'' (Some ''landing'') (snd first_posted)"

definition second_posted :: "task \<times> world" where
  "second_posted = resume (UserSaveDone True (4, 4)) (fst second_started) (snd second_started)"

definition both_settled :: world where
  "both_settled =
     (case resume (FetchDone (Resolved ok_payload)) (fst first_posted) (snd second_posted) of
        (t1, w1) \<Rightarrow>
          (case resume (AssistantSaveDone True) t1 w1 of
             (t1', w2) \<Rightarrow>
               (case resume (FetchDone (Resolved ok_payload)) (fst second_posted) w2 of
                  (t2, w3) \<Rightarrow> snd (resume (AssistantSaveDone True) t2 w3))))"

text \<open>
  The two sends of above both in flight, when the first one fails: its inference call is
  rejected, or its answer arrives and saving the assistant message is rejected.
\<close>

definition first_fetch_rejected :: world where
  "first_fetch_rejected =
     snd (resume (FetchDone Rejected) (fst first_posted) (snd second_posted))"

definition first_answered :: "task \<times> world" where
  "first_answered =
     resume (FetchDone (Resolved ok_payload)) (fst first_posted) (snd second_posted)"

definition first_save_rejected :: world where
  "first_save_rejected =
     snd (resume (AssistantSaveDone False) (fst first_answered) (snd first_answered))"

text \<open>
  One send alone, through the handler of the current render, while the \<open>list\<close> call of
  \<open>loadMessages\<close> is still out. The conversation has two earlier messages. In the first
  run the rows arrive after the user message has been appended, and the inference call
  is then rejected. In the second run the rows, now with the saved user message, arrive
  after the answer, and saving the assistant message is then rejected.
\<close>

definition earlier_rows :: "ChatMessage list" where
  "earlier_rows = [old_message 1 UserRole ''a'', old_message 2 AssistantRole ''b'']"

definition race_posted :: "task \<times> world" where
  "race_posted =
     resume (UserSaveDone True (2, 2)) (fst first_started)
       (loadMessages_done (Some earlier_rows) (snd first_started))"

definition race_fetch_rejected :: world where
  "race_fetch_rejected = snd (resume (FetchDone Rejected) (fst race_posted) (snd race_posted))"

definition late_answered :: "task \<times> world" where
  "late_answered =
     resume (FetchDone (Resolved ok_payload)) (fst first_posted) (snd first_posted)"

definition late_save_rejected :: world where
  "late_save_rejected =
     snd (resume (AssistantSaveDone False) (fst late_answered)
            (loadMessages_done
               (Some (earlier_rows @ [new_user_message timer_closure alice (1, 1) ''first'']))
               (snd late_answered)))"

text \<open>
  The staged prompt on a conversation whose six messages were loaded after the render
  that made the timer's handler.
\<close>

definition staged_on_six :: world where
  "staged_on_six = handleSendWithTemplate timer_closure (1, 1) all_ok ''hello'' None six_messages"

section \<open>Tab lifecycle\<close>

lemma tabs_abc_eval:
  "openTabs tabs_abc = [''src/a.ts'', ''src/b.ts'', ''src/c.ts'']"
  "selectedFile tabs_abc = Some ''src/b.ts''"
  by (simp_all add: tabs_abc_def openFile_def initial_CodeEditor_def)

text \<open>
  C7, as stated, fails: with the tabs a, b, c open and b active, closing b activates c,
  the last remaining tab, and not a, the tab immediately before b.
\<close>

theorem closeTab_preceding_counterexample:
  "''src/b.ts'' \<in> set (openTabs tabs_abc) \<and>
   selectedFile tabs_abc = Some ''src/b.ts'' \<and>
   spec_preceding_tab (openTabs tabs_abc) ''src/b.ts'' = Some ''src/a.ts'' \<and>
   selectedFile (closeTab ''src/b.ts'' tabs_abc) = Some ''src/c.ts'' \<and>
   selectedFile (closeTab ''src/b.ts'' tabs_abc) \<noteq>
     spec_preceding_tab (openTabs tabs_abc) ''src/b.ts''"
  by (simp add: tabs_abc_eval closeTab_def)

text \<open>
  C7, amended: closing an open tab removes it and keeps the other tabs in order; when it
  was the active tab, the last remaining tab in open order becomes active, or none when
  no tab remains; when another tab was active, the active tab does not change.
\<close>

theorem closeTab_last_remaining:
  assumes "p \<in> set (openTabs st)"
  shows "p \<notin> set (openTabs (closeTab p st)) \<and>
         openTabs (closeTab p st) = filter (\<lambda>tab. tab \<noteq> p) (openTabs st) \<and>
         selectedFile (closeTab p st) =
           (if selectedFile st = Some p
            then (if openTabs (closeTab p st) = [] then None
                  else Some (last (openTabs (closeTab p st))))
            else selectedFile st)"
  by (simp add: closeTab_def Let_def)

theorem closeTab_last_remaining_witness:
  "''src/b.ts'' \<in> set (openTabs tabs_abc) \<and>
   openTabs (closeTab ''src/b.ts'' tabs_abc) = [''src/a.ts'', ''src/c.ts''] \<and>
   selectedFile (closeTab ''src/b.ts'' tabs_abc) = Some ''src/c.ts''"
  using closeTab_last_remaining [of "''src/b.ts''" tabs_abc]
  by (simp add: tabs_abc_eval)

section \<open>Auto-open\<close>






section \<open>Schema refresh and engine failures\<close>

lemma starts_with_iff: "starts_with s sub \<longleftrightarrow> (\<exists>c. s = sub @ c)"
proof
  assume "starts_with s sub"
  then have "s = sub @ drop (length sub) s"
    unfolding starts_with_def by (metis append_take_drop_id)
  then show "\<exists>c. s = sub @ c" ..
next
  assume "\<exists>c. s = sub @ c"
  then show "starts_with s sub" by (auto simp: starts_with_def)
qed

lemma includes_str_iff: "includes_str s sub \<longleftrightarrow> (\<exists>a c. s = a @ sub @ c)"
proof (induction s)
  case Nil
  then show ?case by auto
next
  case (Cons x xs)
  show ?case
  proof
    assume "includes_str (x # xs) sub"
    then consider "starts_with (x # xs) sub" | "includes_str xs sub" by auto
    then show "\<exists>a c. x # xs = a @ sub @ c"
    proof cases
      case 1
      then obtain c where "x # xs = sub @ c" by (auto simp: starts_with_iff)
      then have "x # xs = [] @ sub @ c" by simp
      then show ?thesis by blast
    next
      case 2
      then obtain a c where "xs = a @ sub @ c" using Cons.IH by auto
      then have "x # xs = (x # a) @ sub @ c" by simp
      then show ?thesis by blast
    qed
  next
    assume "\<exists>a c. x # xs = a @ sub @ c"
    then obtain a c where ac: "x # xs = a @ sub @ c" by auto
    show "includes_str (x # xs) sub"
    proof (cases a)
      case Nil
      with ac have "starts_with (x # xs) sub" by (auto simp: starts_with_iff)
      then show ?thesis by simp
    next
      case (Cons y ys)
      with ac have "xs = ys @ sub @ c" by simp
      then have "includes_str xs sub" using Cons.IH by blast
      then show ?thesis by simp
    qed
  qed
qed

lemma issued_sql: "issued (snd (sql eng stmt b)) = issued b @ [stmt]"
  by (simp add: sql_def split: prod.splits)

lemma sql_result:
  "fst (eng (engine_state b) stmt) = r \<Longrightarrow> \<exists>b1. sql eng stmt b = (r, b1)"
  by (cases "eng (engine_state b) stmt") (simp add: sql_def)

lemma issued_describe_tables:
  "\<exists>ys. issued (snd (describe_tables eng rs acc b)) = issued b @ ys"
proof (induction rs arbitrary: acc b)
  case Nil
  then show ?case by simp
next
  case (Cons r rs)
  show ?case
  proof (cases "sql eng (''PRAGMA table_info('' @ to_text (get_field r ''name'') @ '')'') b")
    case p1: (Pair r1 b1)
    have i1: "issued b1 = issued b @ [''PRAGMA table_info('' @ to_text (get_field r ''name'') @ '')'']"
      using issued_sql [of eng _ b] p1 by (metis snd_conv)
    show ?thesis
    proof (cases r1)
      case (Inl e)
      with p1 i1 show ?thesis by (simp add: Let_def)
    next
      case inr1: (Inr schemaResult)
      show ?thesis
      proof (cases "sql eng (''SELECT COUNT(*) as count FROM '' @ to_text (get_field r ''name'')) b1")
        case p2: (Pair r2 b2)
        have i2: "issued b2 = issued b1 @ [''SELECT COUNT(*) as count FROM '' @ to_text (get_field r ''name'')]"
          using issued_sql [of eng _ b1] p2 by (metis snd_conv)
        show ?thesis
        proof (cases r2)
          case (Inl e)
          with p1 p2 inr1 i1 i2 show ?thesis by (simp add: Let_def)
        next
          case (Inr countResult)
          obtain ys where "issued (snd (describe_tables eng rs
              (acc @ [\<lparr>table_name = get_field r ''name'', columns = map to_column schemaResult,
                       rowCount = count_of countResult\<rparr>]) b2)) = issued b2 @ ys"
            using Cons.IH by blast
          with p1 p2 inr1 Inr i1 i2 show ?thesis by (simp add: Let_def)
        qed
      qed
    qed
  qed
qed

lemma issued_loadTables:
  "\<exists>ys. issued (snd (loadTables eng m b)) = issued b @ list_tables_sql # ys"
proof (cases "sql eng list_tables_sql b")
  case (Pair r b1)
  have i1: "issued b1 = issued b @ [list_tables_sql]"
    using issued_sql [of eng list_tables_sql b] Pair by simp
  show ?thesis
  proof (cases r)
    case (Inl e)
    with Pair i1 show ?thesis by (simp add: loadTables_def loadTables_try_def Let_def)
  next
    case (Inr result)
    obtain ys where ys: "issued (snd (describe_tables eng result [] b1)) = issued b1 @ ys"
      using issued_describe_tables by blast
    have "snd (loadTables eng m b) = snd (describe_tables eng result [] b1)"
      using Pair Inr by (simp add: loadTables_def loadTables_try_def Let_def split: prod.splits sum.splits)
    with ys i1 show ?thesis by simp
  qed
qed


lemma might_change_schema_iff:
  "might_change_schema q \<longleftrightarrow>
     (\<exists>a c. toLowerCase q = a @ ''create'' @ c) \<or>
     (\<exists>a c. toLowerCase q = a @ ''drop'' @ c) \<or>
     (\<exists>a c. toLowerCase q = a @ ''alter'' @ c)"
  unfolding might_change_schema_def includes_str_iff ..

lemma keywords_eval:
  "might_change_schema drop_todos" "might_change_schema select_create"
  "truthy (trim drop_todos)" "truthy (trim select_create)"
  by (simp_all add: might_change_schema_def drop_todos_def select_create_def toLowerCase_def
      toLowerCase_char_def upper_case_def lower_case_def starts_with_def quote_def
      truthy_def trim_def is_space_def whitespace_def)

text \<open>
  C8: when \<open>executeQuery\<close> has run a statement without the engine rejecting it, the
  statement that lists the tables is sent next, which is how \<open>loadTables\<close> begins, exactly
  when the lower-cased statement text has \<open>create\<close>, \<open>drop\<close> or \<open>alter\<close> as a substring.
\<close>

theorem executeQuery_refresh_iff_keyword:
  assumes "truthy (trim (sqlQuery m))"
    and "fst (eng (engine_state b) (sqlQuery m)) = Inr rows"
  shows "(\<exists>ys. issued (snd (executeQuery eng m b)) =
                 issued b @ sqlQuery m # list_tables_sql # ys) \<longleftrightarrow>
         (\<exists>a c. toLowerCase (sqlQuery m) = a @ ''create'' @ c) \<or>
         (\<exists>a c. toLowerCase (sqlQuery m) = a @ ''drop'' @ c) \<or>
         (\<exists>a c. toLowerCase (sqlQuery m) = a @ ''alter'' @ c)"
proof -
  obtain b1 where run: "sql eng (sqlQuery m) b = (Inr rows, b1)"
    using assms(2) sql_result [of eng b "sqlQuery m" "Inr rows"] by blast
  have i1: "issued b1 = issued b @ [sqlQuery m]"
    using issued_sql [of eng "sqlQuery m" b] run by simp
  show ?thesis
  proof (cases "might_change_schema (sqlQuery m)")
    case True
    let ?m2 = "m\<lparr>isLoading := True, error := None, queryResult := Some rows\<rparr>"
    obtain ys where "issued (snd (loadTables eng ?m2 b1)) = issued b1 @ list_tables_sql # ys"
      using issued_loadTables by blast
    moreover have "snd (executeQuery eng m b) = snd (loadTables eng ?m2 b1)"
      using assms(1) run True by (simp add: executeQuery_def Let_def split: prod.splits)
    ultimately have "issued (snd (executeQuery eng m b)) =
        issued b @ sqlQuery m # list_tables_sql # ys"
      using i1 by simp
    then show ?thesis using True might_change_schema_iff by blast
  next
    case False
    then have "snd (executeQuery eng m b) = b1"
      using assms(1) run by (simp add: executeQuery_def Let_def)
    then have "issued (snd (executeQuery eng m b)) = issued b @ [sqlQuery m]"
      using i1 by simp
    then show ?thesis using False might_change_schema_iff by auto
  qed
qed

lemma loadTables_empty_engine:
  "loadTables empty_engine m b =
     (m\<lparr>isLoading := False, error := None, tables := []\<rparr>,
      \<lparr>engine_state = engine_state b, issued = issued b @ [list_tables_sql],
        rejected = rejected b\<rparr>)"
  by (simp add: loadTables_def loadTables_try_def sql_def empty_engine_def)

lemma executeQuery_empty_engine:
  "truthy (trim q) \<Longrightarrow> might_change_schema q \<Longrightarrow>
   issued (snd (executeQuery empty_engine (with_query q) fresh_backend)) = [q, list_tables_sql]"
  by (simp add: executeQuery_def with_query_def sql_def empty_engine_def fresh_backend_def
      loadTables_empty_engine Let_def)

text \<open>
  Both statements of the specification trigger the refresh: \<open>DROP TABLE todos\<close>, and the
  false positive \<open>SELECT 'create' FROM todos\<close>.
\<close>

theorem executeQuery_refresh_iff_keyword_witness:
  "truthy (trim (sqlQuery (with_query drop_todos))) \<and>
   fst (empty_engine (engine_state fresh_backend) (sqlQuery (with_query drop_todos))) = Inr [] \<and>
   might_change_schema drop_todos \<and>
   issued (snd (executeQuery empty_engine (with_query drop_todos) fresh_backend)) =
     [drop_todos, list_tables_sql] \<and>
   truthy (trim (sqlQuery (with_query select_create))) \<and>
   fst (empty_engine (engine_state fresh_backend) (sqlQuery (with_query select_create))) = Inr [] \<and>
   might_change_schema select_create \<and>
   issued (snd (executeQuery empty_engine (with_query select_create) fresh_backend)) =
     [select_create, list_tables_sql]"
  using executeQuery_refresh_iff_keyword [of "with_query drop_todos" empty_engine fresh_backend "[]"]
    executeQuery_refresh_iff_keyword [of "with_query select_create" empty_engine fresh_backend "[]"]
    keywords_eval executeQuery_empty_engine [of drop_todos]
    executeQuery_empty_engine [of select_create]
  by (simp add: with_query_def empty_engine_def)

lemma sql_cases:
  "(\<exists>rows b1. sql eng stmt b = (Inr rows, b1) \<and> rejected b1 = rejected b) \<or>
   (\<exists>e b1. sql eng stmt b = (Inl e, b1) \<and> rejected b1 = rejected b @ [e])"
proof (cases "eng (engine_state b) stmt")
  case (Pair r db')
  then show ?thesis by (cases r) (simp_all add: sql_def)
qed

lemma rejected_sql:
  "rejected (snd (sql eng stmt b)) =
     rejected b @ (case fst (eng (engine_state b) stmt) of Inl e \<Rightarrow> [e] | Inr rows \<Rightarrow> [])"
  by (cases "eng (engine_state b) stmt") (simp add: sql_def)

lemma describe_tables_cases:
  "(\<exists>tableList. fst (describe_tables eng rs acc b) = Inr tableList \<and>
      rejected (snd (describe_tables eng rs acc b)) = rejected b) \<or>
   (\<exists>e. fst (describe_tables eng rs acc b) = Inl e \<and>
      rejected (snd (describe_tables eng rs acc b)) = rejected b @ [e])"
proof (induction rs arbitrary: acc b)
  case Nil
  then show ?case by simp
next
  case (Cons r rs)
  let ?pragma = "''PRAGMA table_info('' @ to_text (get_field r ''name'') @ '')''"
  let ?count = "''SELECT COUNT(*) as count FROM '' @ to_text (get_field r ''name'')"
  from sql_cases [of eng ?pragma b] show ?case
  proof (elim disjE exE conjE)
    fix e b1
    assume "sql eng ?pragma b = (Inl e, b1)" "rejected b1 = rejected b @ [e]"
    then show ?thesis by (simp add: Let_def)
  next
    fix schemaResult b1
    assume p: "sql eng ?pragma b = (Inr schemaResult, b1)" "rejected b1 = rejected b"
    from sql_cases [of eng ?count b1] show ?thesis
    proof (elim disjE exE conjE)
      fix e b2
      assume "sql eng ?count b1 = (Inl e, b2)" "rejected b2 = rejected b1 @ [e]"
      with p show ?thesis by (simp add: Let_def)
    next
      fix countResult b2
      assume c: "sql eng ?count b1 = (Inr countResult, b2)" "rejected b2 = rejected b1"
      let ?acc = "acc @ [\<lparr>table_name = get_field r ''name'',
        columns = map to_column schemaResult, rowCount = count_of countResult\<rparr>]"
      have step: "describe_tables eng (r # rs) acc b = describe_tables eng rs ?acc b2"
        using p c by (simp add: Let_def)
      show ?thesis
        using Cons.IH [of ?acc b2] p(2) c(2) unfolding step by simp
    qed
  qed
qed

lemma loadTables_try_cases:
  "(\<exists>tableList. fst (loadTables_try eng b) = Inr tableList \<and>
      rejected (snd (loadTables_try eng b)) = rejected b) \<or>
   (\<exists>e. fst (loadTables_try eng b) = Inl e \<and>
      rejected (snd (loadTables_try eng b)) = rejected b @ [e])"
  using sql_cases [of eng list_tables_sql b]
proof (elim disjE exE conjE)
  fix e b1
  assume "sql eng list_tables_sql b = (Inl e, b1)" "rejected b1 = rejected b @ [e]"
  then show ?thesis by (simp add: loadTables_try_def)
next
  fix result b1
  assume l: "sql eng list_tables_sql b = (Inr result, b1)" "rejected b1 = rejected b"
  then have "loadTables_try eng b = describe_tables eng result [] b1"
    by (simp add: loadTables_try_def)
  then show ?thesis
    using describe_tables_cases [of eng result "[]" b1] l(2) by simp
qed

lemma loadTables_rejected:
  assumes "rejected (snd (loadTables eng m b)) \<noteq> rejected b"
  shows "fst (loadTables eng m b) =
      m\<lparr>isLoading := True, error := None,
        error := Some (catch_message (last (rejected (snd (loadTables eng m b))))
                  ''Failed to load tables''),
        isLoading := False\<rparr>"
proof -
  have snd_eq: "snd (loadTables eng m b) = snd (loadTables_try eng b)"
    by (simp add: loadTables_def Let_def split: prod.splits sum.splits)
  from loadTables_try_cases [of eng b] assms obtain e
    where e: "fst (loadTables_try eng b) = Inl e"
      "rejected (snd (loadTables_try eng b)) = rejected b @ [e]"
    unfolding snd_eq by auto
  then obtain b' where "loadTables_try eng b = (Inl e, b')"
    by (cases "loadTables_try eng b") auto
  then show ?thesis
    using e(2) unfolding snd_eq by (simp add: loadTables_def Let_def)
qed

text \<open>
  Every statement sent during a refresh was either accepted by the engine, in the state
  it was sent in, or rejected, and then the refresh ends with what the engine threw.
\<close>

lemma sql_sent:
  "sql eng stmt b = (r, b1) \<Longrightarrow>
   issued b1 = issued b @ [stmt] \<and> r = fst (eng (engine_state b) stmt)"
  by (cases "eng (engine_state b) stmt") (auto simp: sql_def)

lemma describe_tables_sent:
  "\<exists>ys. issued (snd (describe_tables eng rs acc b)) = issued b @ ys \<and>
     (\<forall>s \<in> set ys.
        (\<exists>db rows. fst (eng db s) = Inr rows) \<or>
        (\<exists>db e. fst (eng db s) = Inl e \<and> fst (describe_tables eng rs acc b) = Inl e))"
proof (induction rs arbitrary: acc b)
  case Nil
  then show ?case by simp
next
  case (Cons r rs)
  let ?pragma = "''PRAGMA table_info('' @ to_text (get_field r ''name'') @ '')''"
  let ?count = "''SELECT COUNT(*) as count FROM '' @ to_text (get_field r ''name'')"
  obtain r1 b1 where p: "sql eng ?pragma b = (r1, b1)" by (cases "sql eng ?pragma b")
  note p' = sql_sent [OF p]
  show ?case
  proof (cases r1)
    case (Inl e)
    then have "describe_tables eng (r # rs) acc b = (Inl e, b1)"
      using p by (simp add: Let_def)
    moreover have "fst (eng (engine_state b) ?pragma) = Inl e" using p' Inl by simp
    ultimately show ?thesis using p' by auto
  next
    case schema: (Inr schemaResult)
    obtain r2 b2 where c: "sql eng ?count b1 = (r2, b2)" by (cases "sql eng ?count b1")
    note c' = sql_sent [OF c]
    have pragma_ok: "\<exists>db rows. fst (eng db ?pragma) = Inr rows"
      using p' schema by metis
    show ?thesis
    proof (cases r2)
      case (Inl e)
      then have "describe_tables eng (r # rs) acc b = (Inl e, b2)"
        using p c schema by (simp add: Let_def)
      moreover have "fst (eng (engine_state b1) ?count) = Inl e" using c' Inl by simp
      ultimately show ?thesis using p' c' pragma_ok by auto
    next
      case (Inr countResult)
      let ?acc = "acc @ [\<lparr>table_name = get_field r ''name'',
        columns = map to_column schemaResult, rowCount = count_of countResult\<rparr>]"
      have step: "describe_tables eng (r # rs) acc b = describe_tables eng rs ?acc b2"
        using p c schema Inr by (simp add: Let_def)
      have count_ok: "\<exists>db rows. fst (eng db ?count) = Inr rows"
        using c' Inr by metis
      from Cons.IH [of ?acc b2] obtain ys where
        ys: "issued (snd (describe_tables eng rs ?acc b2)) = issued b2 @ ys"
          "\<forall>s \<in> set ys.
            (\<exists>db rows. fst (eng db s) = Inr rows) \<or>
            (\<exists>db e. fst (eng db s) = Inl e \<and> fst (describe_tables eng rs ?acc b2) = Inl e)"
        by blast
      have "issued (snd (describe_tables eng (r # rs) acc b)) =
          issued b @ (?pragma # ?count # ys)"
        using ys(1) p' c' unfolding step by simp
      moreover have "\<forall>s \<in> set (?pragma # ?count # ys).
          (\<exists>db rows. fst (eng db s) = Inr rows) \<or>
          (\<exists>db e. fst (eng db s) = Inl e \<and> fst (describe_tables eng (r # rs) acc b) = Inl e)"
        using ys(2) pragma_ok count_ok unfolding step by auto
      ultimately show ?thesis by blast
    qed
  qed
qed

lemma loadTables_try_sent:
  "\<exists>ys. issued (snd (loadTables_try eng b)) = issued b @ ys \<and>
     (\<forall>s \<in> set ys.
        (\<exists>db rows. fst (eng db s) = Inr rows) \<or>
        (\<exists>db e. fst (eng db s) = Inl e \<and> fst (loadTables_try eng b) = Inl e))"
proof -
  obtain r1 b1 where l: "sql eng list_tables_sql b = (r1, b1)"
    by (cases "sql eng list_tables_sql b")
  note l' = sql_sent [OF l]
  show ?thesis
  proof (cases r1)
    case (Inl e)
    then have "loadTables_try eng b = (Inl e, b1)" using l by (simp add: loadTables_try_def)
    moreover have "fst (eng (engine_state b) list_tables_sql) = Inl e" using l' Inl by simp
    ultimately show ?thesis using l' by auto
  next
    case (Inr result)
    have step: "loadTables_try eng b = describe_tables eng result [] b1"
      using l Inr by (simp add: loadTables_try_def)
    have list_ok: "\<exists>db rows. fst (eng db list_tables_sql) = Inr rows"
      using l' Inr by metis
    from describe_tables_sent [of eng result "[]" b1] obtain ys where
      ys: "issued (snd (describe_tables eng result [] b1)) = issued b1 @ ys"
        "\<forall>s \<in> set ys.
          (\<exists>db rows. fst (eng db s) = Inr rows) \<or>
          (\<exists>db e. fst (eng db s) = Inl e \<and> fst (describe_tables eng result [] b1) = Inl e)"
      by blast
    have "issued (snd (loadTables_try eng b)) = issued b @ (list_tables_sql # ys)"
      using ys(1) l' unfolding step by simp
    moreover have "\<forall>s \<in> set (list_tables_sql # ys).
        (\<exists>db rows. fst (eng db s) = Inr rows) \<or>
        (\<exists>db e. fst (eng db s) = Inl e \<and> fst (loadTables_try eng b) = Inl e)"
      using ys(2) list_ok unfolding step by auto
    ultimately show ?thesis by blast
  qed
qed

lemma loadTables_statement_rejected:
  assumes "\<forall>db. fst (eng db stmt) = Inl e"
    and "stmt \<in> set (drop (length (issued b)) (issued (snd (loadTables eng m b))))"
  shows "fst (loadTables eng m b) =
      m\<lparr>isLoading := True, error := None,
        error := Some (catch_message e ''Failed to load tables''), isLoading := False\<rparr>"
proof -
  have snd_eq: "snd (loadTables eng m b) = snd (loadTables_try eng b)"
    by (simp add: loadTables_def Let_def split: prod.splits sum.splits)
  from loadTables_try_sent [of eng b] obtain ys where
    ys: "issued (snd (loadTables_try eng b)) = issued b @ ys"
      "\<forall>s \<in> set ys.
        (\<exists>db rows. fst (eng db s) = Inr rows) \<or>
        (\<exists>db e. fst (eng db s) = Inl e \<and> fst (loadTables_try eng b) = Inl e)"
    by blast
  have "stmt \<in> set ys" using assms(2) ys(1) unfolding snd_eq by simp
  with ys(2) assms(1) have "fst (loadTables_try eng b) = Inl e" by fastforce
  then obtain b' where "loadTables_try eng b = (Inl e, b')"
    by (cases "loadTables_try eng b") auto
  then show ?thesis by (simp add: loadTables_def Let_def)
qed

text \<open>
  C9: whenever the engine rejects a statement sent during a table-list refresh (the
  statement that lists the tables, or one that describes a table or counts its rows), the
  callback ends normally with the error text in the \<open>error\<close> cell (the message of the
  \<open>Error\<close> thrown, or the fixed text for any other value), the table list is the one
  displayed before, and the loading flag is cleared. The same holds when the engine
  rejects the statement of an ad-hoc execute, and when it accepts that statement and
  rejects one of the refresh that follows. The first part is stated twice: for any
  rejection the engine has answered during the refresh, and for a statement that the
  engine rejects in every state and that the refresh has sent.
\<close>

theorem engine_failure_keeps_tables:
  "(rejected (snd (loadTables eng m b)) \<noteq> rejected b \<longrightarrow>
      tables (fst (loadTables eng m b)) = tables m \<and>
      error (fst (loadTables eng m b)) =
        Some (catch_message (last (rejected (snd (loadTables eng m b))))
                ''Failed to load tables'') \<and>
      \<not> isLoading (fst (loadTables eng m b))) \<and>
   ((\<forall>db. fst (eng db stmt) = Inl e) \<and>
    stmt \<in> set (drop (length (issued b)) (issued (snd (loadTables eng m b)))) \<longrightarrow>
      tables (fst (loadTables eng m b)) = tables m \<and>
      error (fst (loadTables eng m b)) = Some (catch_message e ''Failed to load tables'') \<and>
      \<not> isLoading (fst (loadTables eng m b))) \<and>
   (truthy (trim (sqlQuery m)) \<and> fst (eng (engine_state b) (sqlQuery m)) = Inl e \<longrightarrow>
      tables (fst (executeQuery eng m b)) = tables m \<and>
      queryResult (fst (executeQuery eng m b)) = queryResult m \<and>
      error (fst (executeQuery eng m b)) = Some (catch_message e ''Query execution failed'') \<and>
      \<not> isLoading (fst (executeQuery eng m b))) \<and>
   (truthy (trim (sqlQuery m)) \<and> fst (eng (engine_state b) (sqlQuery m)) = Inr rows \<and>
    rejected (snd (executeQuery eng m b)) \<noteq> rejected b \<longrightarrow>
      tables (fst (executeQuery eng m b)) = tables m \<and>
      error (fst (executeQuery eng m b)) =
        Some (catch_message (last (rejected (snd (executeQuery eng m b))))
                ''Failed to load tables'') \<and>
      \<not> isLoading (fst (executeQuery eng m b)))"
proof (intro conjI impI)
  assume "rejected (snd (loadTables eng m b)) \<noteq> rejected b"
  from loadTables_rejected [OF this]
  show "tables (fst (loadTables eng m b)) = tables m"
    "error (fst (loadTables eng m b)) =
       Some (catch_message (last (rejected (snd (loadTables eng m b)))) ''Failed to load tables'')"
    "\<not> isLoading (fst (loadTables eng m b))"
    by simp_all
next
  assume "(\<forall>db. fst (eng db stmt) = Inl e) \<and>
    stmt \<in> set (drop (length (issued b)) (issued (snd (loadTables eng m b))))"
  then have "fst (loadTables eng m b) =
      m\<lparr>isLoading := True, error := None,
        error := Some (catch_message e ''Failed to load tables''), isLoading := False\<rparr>"
    using loadTables_statement_rejected [of eng stmt e b m] by blast
  then show "tables (fst (loadTables eng m b)) = tables m"
    "error (fst (loadTables eng m b)) = Some (catch_message e ''Failed to load tables'')"
    "\<not> isLoading (fst (loadTables eng m b))"
    by simp_all
next
  assume a: "truthy (trim (sqlQuery m)) \<and> fst (eng (engine_state b) (sqlQuery m)) = Inl e"
  then obtain b1 where "sql eng (sqlQuery m) b = (Inl e, b1)"
    using sql_result [of eng b "sqlQuery m" "Inl e"] by blast
  with a have "fst (executeQuery eng m b) =
      m\<lparr>isLoading := True, error := None,
        error := Some (catch_message e ''Query execution failed''), isLoading := False\<rparr>"
    by (simp add: executeQuery_def Let_def)
  then show "tables (fst (executeQuery eng m b)) = tables m"
    "queryResult (fst (executeQuery eng m b)) = queryResult m"
    "error (fst (executeQuery eng m b)) = Some (catch_message e ''Query execution failed'')"
    "\<not> isLoading (fst (executeQuery eng m b))"
    by simp_all
next
  assume a: "truthy (trim (sqlQuery m)) \<and> fst (eng (engine_state b) (sqlQuery m)) = Inr rows \<and>
    rejected (snd (executeQuery eng m b)) \<noteq> rejected b"
  then obtain b1 where run: "sql eng (sqlQuery m) b = (Inr rows, b1)"
    using sql_result [of eng b "sqlQuery m" "Inr rows"] by blast
  have r1: "rejected b1 = rejected b"
    using rejected_sql [of eng "sqlQuery m" b] run a by simp
  let ?m2 = "m\<lparr>isLoading := True, error := None, queryResult := Some rows\<rparr>"
  have kw: "might_change_schema (sqlQuery m)"
  proof (rule ccontr)
    assume "\<not> might_change_schema (sqlQuery m)"
    then have "snd (executeQuery eng m b) = b1"
      using a run by (simp add: executeQuery_def Let_def)
    with r1 a show False by simp
  qed
  have ex: "executeQuery eng m b =
      ((fst (loadTables eng ?m2 b1))\<lparr>isLoading := False\<rparr>, snd (loadTables eng ?m2 b1))"
    using a run kw by (simp add: executeQuery_def Let_def split: prod.splits)
  then have "rejected (snd (loadTables eng ?m2 b1)) \<noteq> rejected b1"
    using a r1 by simp
  from loadTables_rejected [OF this] ex
  have "fst (executeQuery eng m b) =
      ?m2\<lparr>isLoading := True, error := None,
        error := Some (catch_message (last (rejected (snd (executeQuery eng m b))))
                  ''Failed to load tables''),
        isLoading := False, isLoading := False\<rparr>"
    by simp
  then show "tables (fst (executeQuery eng m b)) = tables m"
    "error (fst (executeQuery eng m b)) =
       Some (catch_message (last (rejected (snd (executeQuery eng m b)))) ''Failed to load tables'')"
    "\<not> isLoading (fst (executeQuery eng m b))"
    by simp_all
qed

lemma failing_engine_eval:
  "fst (failing_engine (engine_state fresh_backend) q) = Inl (ErrorObject ''no such table'')"
  by (simp add: failing_engine_def)

lemma todos_statements:
  "to_text (get_field todos_row ''name'') = ''todos''"
  "get_field todos_row ''name'' = JStr ''todos''"
  "''PRAGMA table_info(todos)'' \<noteq> list_tables_sql"
  "''SELECT COUNT(*) as count FROM todos'' \<noteq> list_tables_sql"
  "drop_todos \<noteq> list_tables_sql"
  "drop_todos \<noteq> ''PRAGMA table_info(todos)''"
  "drop_todos \<noteq> ''SELECT COUNT(*) as count FROM todos''"
  by (simp_all add: todos_row_def get_field_def list_tables_sql_def drop_todos_def)

lemma pragma_failing_engine_eval:
  "loadTables pragma_failing_engine m fresh_backend =
     (m\<lparr>isLoading := True, error := None, error := Some ''database is locked'',
        isLoading := False\<rparr>,
      \<lparr>engine_state = (), issued = [list_tables_sql, ''PRAGMA table_info(todos)''],
        rejected = [ErrorObject ''database is locked'']\<rparr>)"
  by (simp add: loadTables_def loadTables_try_def sql_def pragma_failing_engine_def
      fresh_backend_def todos_statements Let_def)

lemma count_failing_engine_eval:
  "loadTables count_failing_engine m b =
     (m\<lparr>isLoading := True, error := None, error := Some ''Failed to load tables'',
        isLoading := False\<rparr>,
      \<lparr>engine_state = engine_state b,
        issued = issued b @ [list_tables_sql, ''PRAGMA table_info(todos)'',
          ''SELECT COUNT(*) as count FROM todos''],
        rejected = rejected b @ [OtherValue]\<rparr>)"
  by (simp add: loadTables_def loadTables_try_def sql_def count_failing_engine_def
      todos_statements Let_def)

lemma count_failing_execute_eval:
  "fst (count_failing_engine (engine_state fresh_backend) drop_todos) = Inr []"
  "rejected (snd (executeQuery count_failing_engine (with_query drop_todos) fresh_backend)) =
     [OtherValue]"
  "tables (fst (executeQuery count_failing_engine (with_query drop_todos) fresh_backend)) =
     one_table"
  "error (fst (executeQuery count_failing_engine (with_query drop_todos) fresh_backend)) =
     Some ''Failed to load tables''"
proof -
  show "fst (count_failing_engine (engine_state fresh_backend) drop_todos) = Inr []"
    by (simp add: count_failing_engine_def todos_statements)
  have run: "sql count_failing_engine drop_todos fresh_backend =
      (Inr [], \<lparr>engine_state = (), issued = [drop_todos], rejected = []\<rparr>)"
    by (simp add: sql_def count_failing_engine_def todos_statements fresh_backend_def)
  have ex: "executeQuery count_failing_engine (with_query drop_todos) fresh_backend =
      (case loadTables count_failing_engine
              ((with_query drop_todos)\<lparr>isLoading := True, error := None, queryResult := Some []\<rparr>)
              \<lparr>engine_state = (), issued = [drop_todos], rejected = []\<rparr> of
         (m3, b2) \<Rightarrow> (m3\<lparr>isLoading := False\<rparr>, b2))"
    using keywords_eval(1,3) run
    by (simp add: executeQuery_def Let_def with_query_def)
  show "rejected (snd (executeQuery count_failing_engine (with_query drop_todos) fresh_backend)) =
      [OtherValue]"
    "tables (fst (executeQuery count_failing_engine (with_query drop_todos) fresh_backend)) =
      one_table"
    "error (fst (executeQuery count_failing_engine (with_query drop_todos) fresh_backend)) =
      Some ''Failed to load tables''"
    unfolding ex count_failing_engine_eval by (simp_all add: with_query_def)
qed

theorem engine_failure_keeps_tables_witness:
  "rejected (snd (loadTables pragma_failing_engine (with_query drop_todos) fresh_backend)) \<noteq>
     rejected fresh_backend \<and>
   tables (fst (loadTables pragma_failing_engine (with_query drop_todos) fresh_backend)) =
     one_table \<and>
   error (fst (loadTables pragma_failing_engine (with_query drop_todos) fresh_backend)) =
     Some ''database is locked'' \<and>
   rejected (snd (loadTables count_failing_engine (with_query drop_todos) fresh_backend)) \<noteq>
     rejected fresh_backend \<and>
   tables (fst (loadTables count_failing_engine (with_query drop_todos) fresh_backend)) =
     one_table \<and>
   error (fst (loadTables count_failing_engine (with_query drop_todos) fresh_backend)) =
     Some ''Failed to load tables'' \<and>
   (\<forall>db. fst (pragma_failing_engine db ''PRAGMA table_info(todos)'') =
      Inl (ErrorObject ''database is locked'')) \<and>
   ''PRAGMA table_info(todos)'' \<in> set (drop (length (issued fresh_backend))
      (issued (snd (loadTables pragma_failing_engine (with_query drop_todos) fresh_backend)))) \<and>
   truthy (trim (sqlQuery (with_query drop_todos))) \<and>
   fst (failing_engine (engine_state fresh_backend) (sqlQuery (with_query drop_todos))) =
     Inl (ErrorObject ''no such table'') \<and>
   tables (fst (executeQuery failing_engine (with_query drop_todos) fresh_backend)) = one_table \<and>
   error (fst (executeQuery failing_engine (with_query drop_todos) fresh_backend)) =
     Some ''no such table'' \<and>
   fst (count_failing_engine (engine_state fresh_backend) (sqlQuery (with_query drop_todos))) =
     Inr [] \<and>
   rejected (snd (executeQuery count_failing_engine (with_query drop_todos) fresh_backend)) \<noteq>
     rejected fresh_backend \<and>
   tables (fst (executeQuery count_failing_engine (with_query drop_todos) fresh_backend)) =
     one_table \<and>
   error (fst (executeQuery count_failing_engine (with_query drop_todos) fresh_backend)) =
     Some ''Failed to load tables''"
proof -
  have q: "sqlQuery (with_query drop_todos) = drop_todos"
    "tables (with_query drop_todos) = one_table"
    "rejected fresh_backend = []" "issued fresh_backend = []"
    "\<forall>db. fst (pragma_failing_engine db ''PRAGMA table_info(todos)'') =
       Inl (ErrorObject ''database is locked'')"
    by (simp_all add: with_query_def fresh_backend_def pragma_failing_engine_def
        todos_statements)
  show ?thesis
    using engine_failure_keeps_tables
        [of pragma_failing_engine "with_query drop_todos" fresh_backend
          "''PRAGMA table_info(todos)''" "ErrorObject ''database is locked''" "[]"]
      engine_failure_keeps_tables
        [of count_failing_engine "with_query drop_todos" fresh_backend
          "[]" "ErrorObject ''no such table''" "[]"]
      engine_failure_keeps_tables
        [of failing_engine "with_query drop_todos" fresh_backend
          "[]" "ErrorObject ''no such table''" "[]"]
      failing_engine_eval count_failing_execute_eval keywords_eval
    by (simp add: q pragma_failing_engine_eval count_failing_engine_eval)
qed

section \<open>Conversation engine: sending a message\<close>

lemma digits_small:
  "digits 1 = ''1''" "digits 2 = ''2''" "digits 3 = ''3''" "digits 4 = ''4''"
  "digits 5 = ''5''" "digits 6 = ''6''" "digits (Suc 0) = ''1''"
  by (simp_all add: digits.simps)

lemma trim_words:
  "trim ''first'' = ''first''" "trim ''second'' = ''second''" "trim ''hello'' = ''hello''"
  by (simp_all add: trim_def is_space_def whitespace_def)

lemma render_sel [simp]:
  "c_user (render pid cb w) = user w" "c_isStreaming (render pid cb w) = isStreaming w"
  "c_messages (render pid cb w) = messages w" "c_projectId (render pid cb w) = pid"
  "c_onCodeGenerated (render pid cb w) = cb"
  by (simp_all add: render_def)

lemma send_start_accepted:
  assumes "user w = Some u" "truthy (trim messageContent)" "\<not> isStreaming w"
  shows "send_start (render pid cb w) now messageContent template w =
    (AwaitUserSave (render pid cb w) u
       (new_user_message (render pid cb w) u now messageContent) template,
     w\<lparr>messages := messages w @ [new_user_message (render pid cb w) u now messageContent],
       input := [], isStreaming := True\<rparr>)"
  using assms by (simp add: send_start_def Let_def)

lemma send_start_guard:
  "c_isStreaming cl \<Longrightarrow> send_start cl now messageContent template w = (Settled, w)"
  by (simp add: send_start_def split: option.splits)


lemma inference_failure_fields:
  assumes "user w = Some u" "truthy (trim messageContent)" "\<not> isStreaming w"
    and "user_save_ok out"
    and "inference_failed (fetch_result out)"
    and "w' = handleSendWithTemplate (render pid cb w) now out messageContent template w"
  shows "messages w' = messages w @ [new_user_message (render pid cb w) u now messageContent]"
    and "isStreaming w' = False"
    and "user w' = Some u"
    and "logged w' = Suc (logged w)"
    and "generated w' = generated w"
proof -
  have "resume (FetchDone (fetch_result out)) (AwaitFetch cl u am) v = (Settled, catch_finally v)"
    for cl am v
    using assms(5) by (cases "fetch_result out") simp_all
  then have "w' = catch_finally (snd (resume (UserSaveDone True (assistant_clock out))
      (fst (send_start (render pid cb w) now messageContent template w))
      (snd (send_start (render pid cb w) now messageContent template w))))"
    using assms(1-4) unfolding assms(6)
    by (simp add: handleSendWithTemplate_def send_start_accepted Let_def)
  then show "messages w' = messages w @ [new_user_message (render pid cb w) u now messageContent]"
    and "isStreaming w' = False"
    and "user w' = Some u"
    and "logged w' = Suc (logged w)"
    and "generated w' = generated w"
    using assms(1-4)
    by (simp_all add: send_start_accepted Let_def catch_finally_def butlast_append)
qed

text \<open>
  One send through the handler of the current render, run from the call to its end with
  no other update of the log in between. When the user message is saved and the inference
  call fails (\<open>fetch\<close> or \<open>response.json()\<close> rejects, or the payload has a truthy \<open>error\<close>
  field), the log is the one before plus the new user message: the placeholder of the
  assistant is gone. The failure is logged, nothing is handed to \<open>onCodeGenerated\<close>, the
  guard is cleared, and the handler of the next render accepts the next non-blank prompt.
\<close>

lemma inference_failure_rolls_back:
  assumes "user w = Some u" "truthy (trim messageContent)" "\<not> isStreaming w"
    and "user_save_ok out"
    and "inference_failed (fetch_result out)"
    and "w' = handleSendWithTemplate (render pid cb w) now out messageContent template w"
    and "truthy (trim next_content)"
  shows "messages w' = messages w @ [new_user_message (render pid cb w) u now messageContent] \<and>
         role (new_user_message (render pid cb w) u now messageContent) = UserRole \<and>
         \<not> isStreaming w' \<and>
         logged w' = Suc (logged w) \<and>
         generated w' = generated w \<and>
         fst (send_start (render pid cb w') now' next_content template' w') \<noteq> Settled"
proof -
  note f = inference_failure_fields [OF assms(1-6)]
  have "fst (send_start (render pid cb w') now' next_content template' w') \<noteq> Settled"
    using send_start_accepted [OF f(3) assms(7), of pid cb now' template'] f(2) by simp
  moreover have "role (new_user_message (render pid cb w) u now messageContent) = UserRole"
    by (simp add: new_user_message_def)
  ultimately show ?thesis using f by simp
qed

lemma signed_in_eval:
  "user signed_in = Some alice" "\<not> isStreaming signed_in" "messages signed_in = []"
  "logged signed_in = 0" "generated signed_in = []" "requests signed_in = []"
  "persisted signed_in = []"
  by (simp_all add: signed_in_def)

lemma inference_failure_rolls_back_example:
  "user signed_in = Some alice \<and> truthy (trim ''hello'') \<and> \<not> isStreaming signed_in \<and>
   user_save_ok (all_ok\<lparr>fetch_result := Resolved error_payload\<rparr>) \<and>
   inference_failed (fetch_result (all_ok\<lparr>fetch_result := Resolved error_payload\<rparr>)) \<and>
   truthy (trim ''second'') \<and>
   messages (handleSendWithTemplate (render ''p'' True signed_in) (1, 1)
      (all_ok\<lparr>fetch_result := Resolved error_payload\<rparr>) ''hello'' None signed_in) =
     [new_user_message (render ''p'' True signed_in) alice (1, 1) ''hello''] \<and>
   \<not> isStreaming (handleSendWithTemplate (render ''p'' True signed_in) (1, 1)
      (all_ok\<lparr>fetch_result := Resolved error_payload\<rparr>) ''hello'' None signed_in)"
proof -
  have h: "truthy (trim ''hello'')" "truthy (trim ''second'')"
    "user_save_ok (all_ok\<lparr>fetch_result := Resolved error_payload\<rparr>)"
    "inference_failed (fetch_result (all_ok\<lparr>fetch_result := Resolved error_payload\<rparr>))"
    by (simp_all add: trim_words truthy_def all_ok_def error_payload_def)
  show ?thesis
    using inference_failure_rolls_back [OF signed_in_eval(1) h(1) signed_in_eval(2) h(3) h(4) refl h(2),
        of "''p''" True "(1, 1)" None] h signed_in_eval
    by simp
qed


lemma user_id_not_assistant_id:
  "msg_id (new_user_message cl u now c) \<noteq> msg_id (new_assistant_message cl' u' now')"
proof
  assume "msg_id (new_user_message cl u now c) = msg_id (new_assistant_message cl' u' now')"
  then have "last (''msg_'' @ digits (fst now) @ ''_user'') =
      last (''msg_'' @ digits (fst now') @ ''_assistant'')"
    by (simp add: new_user_message_def new_assistant_message_def)
  then show False by simp
qed

lemma user_save_failure_fields:
  assumes "user w = Some u" "truthy (trim messageContent)" "\<not> isStreaming w"
    and "\<not> user_save_ok out"
    and "w' = handleSendWithTemplate (render pid cb w) now out messageContent template w"
  shows "requests w' = requests w" and "persisted w' = persisted w"
    and "logged w' = Suc (logged w)" and "isStreaming w' = False"
    and "generated w' = generated w" and "messages w' = messages w"
  using assms(1-4) unfolding assms(5)
  by (simp_all add: handleSendWithTemplate_def send_start_accepted Let_def catch_finally_def)

text \<open>
  C5, as stated, fails: when saving the user message is rejected, control goes to the
  \<open>catch\<close> block before the inference call, so no request is posted; and \<open>slice(0, -1)\<close>
  there takes the last message off the log, which at this point is the user message.
\<close>

theorem user_save_failure_counterexample:
  "user signed_in = Some alice \<and> truthy (trim ''hello'') \<and> \<not> isStreaming signed_in \<and>
   requests (handleSendWithTemplate (render ''p'' True signed_in) (1, 1)
      (all_ok\<lparr>user_save_ok := False\<rparr>) ''hello'' None signed_in) = [] \<and>
   messages (handleSendWithTemplate (render ''p'' True signed_in) (1, 1)
      (all_ok\<lparr>user_save_ok := False\<rparr>) ''hello'' None signed_in) = []"
proof -
  have h: "truthy (trim ''hello'')" "\<not> user_save_ok (all_ok\<lparr>user_save_ok := False\<rparr>)"
    by (simp_all add: trim_words truthy_def)
  show ?thesis
    using user_save_failure_fields [OF signed_in_eval(1) h(1) signed_in_eval(2) h(2) refl,
        of "''p''" True "(1, 1)" None] h signed_in_eval
    by simp
qed

text \<open>
  C5, amended: a failure while saving the user message is logged and ends the send: no
  inference request is posted, no row is created, nothing is handed to \<open>onCodeGenerated\<close>,
  and the guard is cleared.
\<close>

theorem user_save_failure_aborts:
  assumes "user w = Some u" "truthy (trim messageContent)" "\<not> isStreaming w"
    and "\<not> user_save_ok out"
    and "w' = handleSendWithTemplate (render pid cb w) now out messageContent template w"
  shows "requests w' = requests w \<and> persisted w' = persisted w \<and>
         generated w' = generated w \<and> logged w' = Suc (logged w) \<and> \<not> isStreaming w'"
  using user_save_failure_fields [OF assms] by simp

theorem user_save_failure_aborts_witness:
  "user signed_in = Some alice \<and> truthy (trim ''hello'') \<and> \<not> isStreaming signed_in \<and>
   \<not> user_save_ok (all_ok\<lparr>user_save_ok := False\<rparr>) \<and>
   requests (handleSendWithTemplate (render ''p'' True signed_in) (1, 1)
      (all_ok\<lparr>user_save_ok := False\<rparr>) ''hello'' None signed_in) = [] \<and>
   logged (handleSendWithTemplate (render ''p'' True signed_in) (1, 1)
      (all_ok\<lparr>user_save_ok := False\<rparr>) ''hello'' None signed_in) = 1 \<and>
   \<not> isStreaming (handleSendWithTemplate (render ''p'' True signed_in) (1, 1)
      (all_ok\<lparr>user_save_ok := False\<rparr>) ''hello'' None signed_in)"
proof -
  have h: "truthy (trim ''hello'')" "\<not> user_save_ok (all_ok\<lparr>user_save_ok := False\<rparr>)"
    by (simp_all add: trim_words truthy_def)
  show ?thesis
    using user_save_failure_aborts [OF signed_in_eval(1) h(1) signed_in_eval(2) h(2) refl,
        of "''p''" True "(1, 1)" None] h signed_in_eval
    by simp
qed

lemma requests_after_user_save:
  assumes "user w = Some u" "truthy (trim messageContent)" "\<not> isStreaming w"
    and "user_save_ok out"
    and "w' = handleSendWithTemplate (render pid cb w) now out messageContent template w"
  shows "requests w' = requests w @
    [\<lparr>req_messages = map reduce (slice_last 5 (messages w)) @
        [(UserRole, trim messageContent)],
      req_template = template\<rparr>]"
proof (cases "fetch_result out")
  case Rejected
  with assms(1-4) show ?thesis unfolding assms(5)
    by (simp add: handleSendWithTemplate_def send_start_accepted Let_def catch_finally_def
        reduce_def new_user_message_def)
next
  case (Resolved data)
  with assms(1-4) show ?thesis unfolding assms(5)
    by (cases "inference_failed (Resolved data)"; cases "assistant_save_ok out")
       (simp_all add: handleSendWithTemplate_def send_start_accepted Let_def catch_finally_def
        reduce_def new_user_message_def)
qed

text \<open>
  A send through the handler of the current render, whose messages are those of the
  conversation: on a conversation of at least five messages it posts one request, once
  its user message has been saved, and none otherwise; the messages of the request are
  the last five messages of the conversation, in their order, followed by the new user
  message with the trimmed prompt, each as its role and content only.
\<close>

lemma request_context_window:
  assumes "user w = Some u" "truthy (trim messageContent)" "\<not> isStreaming w"
    and "5 \<le> length (messages w)"
    and "w' = handleSendWithTemplate (render pid cb w) now out messageContent template w"
  shows "\<exists>older recent.
           messages w = older @ recent \<and> length recent = 5 \<and>
           requests w' = requests w @
             (if user_save_ok out
              then [\<lparr>req_messages =
                       map (\<lambda>msg. (role msg, msg_content msg)) recent @
                       [(UserRole, trim messageContent)],
                     req_template = template\<rparr>]
              else [])"
proof (intro exI conjI)
  show "messages w = take (length (messages w) - 5) (messages w) @ slice_last 5 (messages w)"
    by (simp add: slice_last_def)
  show "length (slice_last 5 (messages w)) = 5"
    using assms(4) by (simp add: slice_last_def)
  show "requests w' = requests w @
      (if user_save_ok out
       then [\<lparr>req_messages =
                map (\<lambda>msg. (role msg, msg_content msg)) (slice_last 5 (messages w)) @
                [(UserRole, trim messageContent)],
              req_template = template\<rparr>]
       else [])"
  proof (cases "user_save_ok out")
    case True
    then show ?thesis
      using requests_after_user_save [OF assms(1-3) True assms(5)]
      by (simp add: reduce_def [abs_def])
  next
    case False
    then show ?thesis
      using user_save_failure_fields(1) [OF assms(1-3) False assms(5)] by simp
  qed
qed

lemma six_messages_eval:
  "user six_messages = Some alice" "\<not> isStreaming six_messages"
  "requests six_messages = []" "5 \<le> length (messages six_messages)"
  "map reduce (slice_last 5 (messages six_messages)) =
     [(AssistantRole, ''b''), (UserRole, ''c''), (AssistantRole, ''d''), (UserRole, ''e''),
      (AssistantRole, ''f'')]"
  by (simp_all add: six_messages_def six_rows_def loadMessages_done_def signed_in_def
      slice_last_def reduce_def old_message_def)

lemma request_context_window_example:
  "user six_messages = Some alice \<and> truthy (trim ''hello'') \<and> \<not> isStreaming six_messages \<and>
   user_save_ok all_ok \<and> 5 \<le> length (messages six_messages) \<and>
   length (messages six_messages) = 6 \<and>
   requests (handleSendWithTemplate (render ''p'' True six_messages) (1, 1) all_ok
      ''hello'' None six_messages) =
     [\<lparr>req_messages =
         [(AssistantRole, ''b''), (UserRole, ''c''), (AssistantRole, ''d''), (UserRole, ''e''),
          (AssistantRole, ''f''), (UserRole, ''hello'')],
       req_template = None\<rparr>]"
proof -
  have h: "truthy (trim ''hello'')" "user_save_ok all_ok"
    by (simp_all add: trim_words truthy_def all_ok_def)
  have six: "length (messages six_messages) = 6"
    by (simp add: six_messages_def six_rows_def loadMessages_done_def)
  show ?thesis
    using request_context_window [OF six_messages_eval(1) h(1) six_messages_eval(2)
        six_messages_eval(4) refl, of "''p''" True "(1, 1)" all_ok None]
      requests_after_user_save [OF six_messages_eval(1) h(1) six_messages_eval(2) h(2) refl,
        of "''p''" True "(1, 1)" None]
      h six six_messages_eval
    by (simp add: trim_words)
qed


lemma assistant_save_failure_fields:
  assumes "user w = Some u" "truthy (trim messageContent)" "\<not> isStreaming w"
    and "user_save_ok out"
    and "\<not> inference_failed (fetch_result out)"
    and "\<not> assistant_save_ok out"
    and "msg_id (new_assistant_message (render pid cb w) u (assistant_clock out))
           \<notin> msg_id ` set (messages w)"
    and "w' = handleSendWithTemplate (render pid cb w) now out messageContent template w"
  shows "messages w' = messages w @ [new_user_message (render pid cb w) u now messageContent]"
    and "persisted w' = persisted w @ [new_user_message (render pid cb w) u now messageContent]"
    and "generated w' = generated w"
    and "logged w' = Suc (logged w)"
    and "isStreaming w' = False"
proof -
  obtain data where data: "fetch_result out = Resolved data"
    using assms(5) by (cases "fetch_result out") simp_all
  let ?am = "new_assistant_message (render pid cb w) u (assistant_clock out)"
  let ?um = "new_user_message (render pid cb w) u now messageContent"
  let ?upd = "\<lambda>msg. if msg_id msg = msg_id ?am then msg\<lparr>msg_content := response data\<rparr> else msg"
  have old: "map ?upd (messages w) = messages w"
  proof (intro map_idI)
    fix x assume "x \<in> set (messages w)"
    then have "msg_id x \<noteq> msg_id ?am" using assms(7) by (metis imageI)
    then show "?upd x = x" by simp
  qed
  have um: "?upd ?um = ?um"
    using user_id_not_assistant_id [of "render pid cb w" u now messageContent] by simp
  have w': "w' = catch_finally
      (w\<lparr>messages := messages w @ [?um], input := [], isStreaming := True,
         persisted := persisted w @ [?um],
         messages := messages w @ [?um, ?am],
         requests := requests w @
           [\<lparr>req_messages = map reduce (slice_last 5 (messages w) @ [?um]),
             req_template = template\<rparr>],
         messages := map ?upd (messages w @ [?um, ?am])\<rparr>)"
    using assms(1-6) data unfolding assms(8)
    by (simp add: handleSendWithTemplate_def send_start_accepted Let_def)
  show "messages w' = messages w @ [?um]"
    unfolding w' using old um by (simp add: catch_finally_def butlast_append)
  show "persisted w' = persisted w @ [?um]" "generated w' = generated w"
    "logged w' = Suc (logged w)" "isStreaming w' = False"
    unfolding w' by (simp_all add: catch_finally_def)
qed

text \<open>
  One send through the handler of the current render, run from the call to its end with
  no other update of the log in between, on a log in which no message has the id of the
  new assistant message. When the inference call succeeds and saving the assistant
  message is rejected, the log is the one before the send plus the user message (the
  assistant message, response text included, is gone), only the user message has been
  saved, nothing has been handed to \<open>onCodeGenerated\<close>, the failure is logged and the guard
  is cleared.
\<close>

lemma assistant_save_failure_rolls_back:
  assumes "user w = Some u" "truthy (trim messageContent)" "\<not> isStreaming w"
    and "user_save_ok out"
    and "\<not> inference_failed (fetch_result out)"
    and "\<not> assistant_save_ok out"
    and "msg_id (new_assistant_message (render pid cb w) u (assistant_clock out))
           \<notin> msg_id ` set (messages w)"
    and "w' = handleSendWithTemplate (render pid cb w) now out messageContent template w"
  shows "messages w' = messages w @ [new_user_message (render pid cb w) u now messageContent] \<and>
         persisted w' = persisted w @ [new_user_message (render pid cb w) u now messageContent] \<and>
         generated w' = generated w \<and>
         logged w' = Suc (logged w) \<and>
         \<not> isStreaming w'"
  using assistant_save_failure_fields [OF assms] by simp

lemma assistant_save_failure_rolls_back_example:
  "user signed_in = Some alice \<and> truthy (trim ''hello'') \<and> \<not> isStreaming signed_in \<and>
   user_save_ok (all_ok\<lparr>assistant_save_ok := False\<rparr>) \<and>
   \<not> inference_failed (fetch_result (all_ok\<lparr>assistant_save_ok := False\<rparr>)) \<and>
   \<not> assistant_save_ok (all_ok\<lparr>assistant_save_ok := False\<rparr>) \<and>
   msg_id (new_assistant_message (render ''p'' True signed_in) alice
             (assistant_clock (all_ok\<lparr>assistant_save_ok := False\<rparr>)))
     \<notin> msg_id ` set (messages signed_in) \<and>
   messages (handleSendWithTemplate (render ''p'' True signed_in) (1, 1)
      (all_ok\<lparr>assistant_save_ok := False\<rparr>) ''hello'' None signed_in) =
     [new_user_message (render ''p'' True signed_in) alice (1, 1) ''hello''] \<and>
   generated (handleSendWithTemplate (render ''p'' True signed_in) (1, 1)
      (all_ok\<lparr>assistant_save_ok := False\<rparr>) ''hello'' None signed_in) = [] \<and>
   logged (handleSendWithTemplate (render ''p'' True signed_in) (1, 1)
      (all_ok\<lparr>assistant_save_ok := False\<rparr>) ''hello'' None signed_in) = 1"
proof -
  have h: "truthy (trim ''hello'')" "user_save_ok (all_ok\<lparr>assistant_save_ok := False\<rparr>)"
    "\<not> inference_failed (fetch_result (all_ok\<lparr>assistant_save_ok := False\<rparr>))"
    "\<not> assistant_save_ok (all_ok\<lparr>assistant_save_ok := False\<rparr>)"
    "msg_id (new_assistant_message (render ''p'' True signed_in) alice
               (assistant_clock (all_ok\<lparr>assistant_save_ok := False\<rparr>)))
       \<notin> msg_id ` set (messages signed_in)"
    by (simp_all add: trim_words truthy_def all_ok_def ok_payload_def signed_in_def)
  show ?thesis
    using assistant_save_failure_rolls_back [OF signed_in_eval(1) h(1) signed_in_eval(2) h(2-5) refl,
        of "(1, 1)" None] h signed_in_eval
    by simp
qed

lemma scenario_eval:
  "first_started =
     (AwaitUserSave timer_closure alice (new_user_message timer_closure alice (1, 1) ''first'') None,
      signed_in\<lparr>messages := [new_user_message timer_closure alice (1, 1) ''first''],
        input := [], isStreaming := True\<rparr>)"
  "fst first_posted = AwaitFetch timer_closure alice (new_assistant_message timer_closure alice (2, 2))"
  "isStreaming (snd first_posted)"
  "user (snd first_posted) = Some alice"
  "length (requests (snd first_posted)) = 1"
  "fst second_started =
     AwaitUserSave timer_closure alice (new_user_message timer_closure alice (3, 3) ''second'')
       (Some ''landing'')"
  "fst second_posted = AwaitFetch timer_closure alice (new_assistant_message timer_closure alice (4, 4))"
  "length (requests (snd second_posted)) = 2"
  by (simp_all add: first_started_def first_posted_def second_started_def second_posted_def
      send_start_def timer_closure_def render_def signed_in_def alice_def Let_def trim_words
      truthy_def)

lemma both_settled_eval:
  "map role (persisted both_settled) = [UserRole, UserRole, AssistantRole, AssistantRole]"
  "map role (messages both_settled) = [UserRole, AssistantRole, UserRole, AssistantRole]"
  by (simp_all add: both_settled_def first_started_def first_posted_def second_started_def
      second_posted_def send_start_def timer_closure_def render_def signed_in_def alice_def
      Let_def trim_words truthy_def ok_payload_def new_user_message_def
      new_assistant_message_def digits_small)

text \<open>
  C1 does not hold of the code. The guard reads \<open>isStreaming\<close> from the closure of the
  render the handler was made in. While the first request is in flight the state has the
  flag set, and the handler of the current render rejects a second prompt; the handler
  that the staged-prompt timer holds is the one of an earlier render, sees the flag
  cleared and accepts: two requests are in flight, and two user and two assistant rows
  end up saved. The same holds for one handler called twice in a row with no render in
  between.
\<close>

theorem stale_closure_two_in_flight:
  "isStreaming (snd first_posted) \<and>
   in_flight (fst first_posted) \<and>
   send_start (render ''p'' True (snd first_posted)) (3, 3) ''second'' (Some ''landing'')
     (snd first_posted) = (Settled, snd first_posted) \<and>
   fst second_started \<noteq> Settled \<and>
   in_flight (fst second_posted) \<and>
   length (requests (snd second_posted)) = 2 \<and>
   map role (persisted both_settled) = [UserRole, UserRole, AssistantRole, AssistantRole] \<and>
   isStreaming (snd first_started) \<and>
   fst (send_start timer_closure (1, 1) ''second'' None (snd first_started)) \<noteq> Settled"
proof -
  have fresh: "send_start (render ''p'' True (snd first_posted)) (3, 3) ''second''
      (Some ''landing'') (snd first_posted) = (Settled, snd first_posted)"
    using scenario_eval(3) by (intro send_start_guard) simp
  have again: "fst (send_start timer_closure (1, 1) ''second'' None (snd first_started)) \<noteq> Settled"
    by (simp add: send_start_def timer_closure_def render_def signed_in_def trim_words
        truthy_def Let_def)
  show ?thesis
    using fresh again both_settled_eval(1)
    by (simp add: scenario_eval in_flight_def)
qed

text \<open>
  At the moment both requests are in flight the state holds two posted requests and the
  guard flag is set.
\<close>

theorem stale_closure_two_in_flight_witness:
  "isStreaming (snd first_posted) \<and> in_flight (fst first_posted) \<and>
   in_flight (fst second_posted) \<and> length (requests (snd second_posted)) = 2"
  using stale_closure_two_in_flight by simp

text \<open>
  The messages of the log and the rows saved, at the points of the runs looked at below.
\<close>

lemma message_ids:
  "msg_id (new_user_message cl u (1, 1) c) = ''msg_1_user''"
  "msg_id (new_user_message cl u (Suc 0, Suc 0) c) = ''msg_1_user''"
  "msg_id (new_user_message cl u (3, 3) c) = ''msg_3_user''"
  "msg_id (new_assistant_message cl u (2, 2)) = ''msg_2_assistant''"
  "msg_id (new_assistant_message cl u (4, 4)) = ''msg_4_assistant''"
  by (simp_all add: new_user_message_def new_assistant_message_def digits_small)

lemma second_posted_messages:
  "messages (snd second_posted) =
     [new_user_message timer_closure alice (1, 1) ''first'',
      new_assistant_message timer_closure alice (2, 2),
      new_user_message timer_closure alice (3, 3) ''second'',
      new_assistant_message timer_closure alice (4, 4)]"
  by (simp add: first_started_def first_posted_def second_started_def second_posted_def
      send_start_def timer_closure_def render_def signed_in_def Let_def trim_words truthy_def)

lemma first_posted_messages:
  "messages (snd first_posted) =
     [new_user_message timer_closure alice (1, 1) ''first'',
      new_assistant_message timer_closure alice (2, 2)]"
  "persisted (snd first_posted) = [new_user_message timer_closure alice (1, 1) ''first'']"
  by (simp_all add: first_started_def first_posted_def send_start_def timer_closure_def
      render_def signed_in_def Let_def trim_words truthy_def)

lemma first_fetch_rejected_eval:
  "messages first_fetch_rejected =
     [new_user_message timer_closure alice (1, 1) ''first'',
      new_assistant_message timer_closure alice (2, 2),
      new_user_message timer_closure alice (3, 3) ''second'']"
  "isStreaming first_fetch_rejected = False"
  by (simp_all add: first_fetch_rejected_def scenario_eval(2) second_posted_messages
      catch_finally_def)

lemma race_fetch_rejected_eval:
  "messages race_fetch_rejected = earlier_rows"
  "persisted race_fetch_rejected = [new_user_message timer_closure alice (1, 1) ''first'']"
  by (simp_all add: race_fetch_rejected_def race_posted_def scenario_eval(1)
      loadMessages_done_def catch_finally_def signed_in_def Let_def)

lemma first_save_rejected_eval:
  "messages first_save_rejected =
     [new_user_message timer_closure alice (1, 1) ''first'',
      (new_assistant_message timer_closure alice (2, 2))\<lparr>msg_content := ''done''\<rparr>,
      new_user_message timer_closure alice (3, 3) ''second'']"
  "generated first_save_rejected = []"
  by (simp_all add: first_save_rejected_def first_answered_def scenario_eval(2)
      second_posted_messages catch_finally_def ok_payload_def message_ids
      second_posted_def second_started_def first_posted_def first_started_def send_start_def
      timer_closure_def render_def signed_in_def Let_def trim_words truthy_def)

lemma late_save_rejected_eval:
  "messages late_save_rejected = earlier_rows"
  "persisted late_save_rejected = [new_user_message timer_closure alice (1, 1) ''first'']"
  by (simp_all add: late_save_rejected_def late_answered_def scenario_eval(2)
      first_posted_messages loadMessages_done_def catch_finally_def ok_payload_def)

text \<open>
  C2 does not hold of the code. The \<open>catch\<close> block takes the last message off the log,
  whatever it is. With the two sends of C1 in flight, the rejection of the first
  inference call removes the placeholder of the second send: the first send's own
  placeholder stays in the log with its streaming flag set, and the guard is cleared
  while the second request is still out. With one send alone and the rows of
  \<open>loadMessages\<close> arriving after the user message was appended, the rows replace the log,
  and after the rejected inference call the log is the two earlier messages: the user
  message, which has been saved, is not in it.
\<close>

theorem failed_inference_wrong_message_removed:
  "in_flight (fst first_posted) \<and> in_flight (fst second_posted) \<and>
   map msg_id (messages (snd second_posted)) =
     [''msg_1_user'', ''msg_2_assistant'', ''msg_3_user'', ''msg_4_assistant''] \<and>
   map msg_id (messages first_fetch_rejected) =
     [''msg_1_user'', ''msg_2_assistant'', ''msg_3_user''] \<and>
   map msg_isStreaming (messages first_fetch_rejected) = [None, Some True, None] \<and>
   isStreaming first_fetch_rejected = False \<and>
   messages (snd first_started) = [new_user_message timer_closure alice (1, 1) ''first''] \<and>
   messages race_fetch_rejected = earlier_rows \<and>
   map msg_id (messages race_fetch_rejected) = [''m1'', ''m2''] \<and>
   persisted race_fetch_rejected = [new_user_message timer_closure alice (1, 1) ''first'']"
  by (simp add: scenario_eval in_flight_def second_posted_messages first_fetch_rejected_eval
      race_fetch_rejected_eval message_ids)
     (simp add: new_user_message_def new_assistant_message_def earlier_rows_def
      old_message_def digits_small)

text \<open>
  After the first send has failed, its placeholder is still the second message of the
  log, and the user message of the second run is missing from a log of two messages.
\<close>

theorem failed_inference_wrong_message_removed_witness:
  "map msg_isStreaming (messages first_fetch_rejected) = [None, Some True, None] \<and>
   map msg_id (messages race_fetch_rejected) = [''m1'', ''m2'']"
  using failed_inference_wrong_message_removed by blast

text \<open>
  C3 does not hold of the code. The window is \<open>messages.slice(-5)\<close> of the closure of the
  render the handler was made in. The handler that the staged-prompt timer holds is the
  one of the render before the messages were loaded: on the conversation of six messages
  it posts the new user message alone.
\<close>

theorem stale_closure_context_window:
  "5 \<le> length (messages six_messages) \<and>
   c_messages timer_closure = [] \<and>
   requests staged_on_six = [\<lparr>req_messages = [(UserRole, ''hello'')], req_template = None\<rparr>]"
proof -
  have "requests (handleSendWithTemplate timer_closure (1, 1) all_ok ''hello'' None six_messages) =
      [\<lparr>req_messages = [(UserRole, ''hello'')], req_template = None\<rparr>]"
    by (simp add: handleSendWithTemplate_def send_start_def timer_closure_def render_def
        signed_in_def six_messages_def loadMessages_done_def all_ok_def ok_payload_def
        Let_def trim_words truthy_def slice_last_def reduce_def new_user_message_def)
  then show ?thesis
    using six_messages_eval(4)
    by (simp add: staged_on_six_def timer_closure_def render_def signed_in_def)
qed

theorem stale_closure_context_window_witness:
  "length (messages six_messages) = 6 \<and>
   map req_messages (requests staged_on_six) = [[(UserRole, ''hello'')]]"
  using stale_closure_context_window
  by (simp add: six_messages_def six_rows_def loadMessages_done_def)

text \<open>
  C10 does not hold of the code, for the reason C2 does not. With the two sends of C1 in
  flight, the answer of the first arrives and saving its assistant message is rejected:
  the \<open>catch\<close> block removes the placeholder of the second send, and the first send's
  assistant message stays in the log with the response text. With one send alone and
  the rows of \<open>loadMessages\<close>, the saved user message among them, arriving after the
  answer, the rejected save takes the user message off the log.
\<close>

theorem failed_assistant_save_wrong_message_removed:
  "in_flight (fst first_posted) \<and> in_flight (fst second_posted) \<and>
   map msg_id (messages first_save_rejected) =
     [''msg_1_user'', ''msg_2_assistant'', ''msg_3_user''] \<and>
   map msg_content (messages first_save_rejected) = [''first'', ''done'', ''second''] \<and>
   messages (snd first_posted) =
     [new_user_message timer_closure alice (1, 1) ''first'',
      new_assistant_message timer_closure alice (2, 2)] \<and>
   messages late_save_rejected = earlier_rows \<and>
   map msg_id (messages late_save_rejected) = [''m1'', ''m2''] \<and>
   persisted late_save_rejected = [new_user_message timer_closure alice (1, 1) ''first'']"
  by (simp add: scenario_eval in_flight_def first_save_rejected_eval late_save_rejected_eval
      first_posted_messages message_ids)
     (simp add: new_user_message_def new_assistant_message_def earlier_rows_def
      old_message_def digits_small trim_words)

theorem failed_assistant_save_wrong_message_removed_witness:
  "map msg_content (messages first_save_rejected) = [''first'', ''done'', ''second''] \<and>
   map msg_id (messages late_save_rejected) = [''m1'', ''m2'']"
  using failed_assistant_save_wrong_message_removed by blast

section \<open>Artifact extraction on fenced blocks\<close>



lemma starts_with_fence_append: "starts_with (fence @ rest) fence"
  by (simp add: starts_with_def)























end
